theory Spec2Isabelle
  imports Complex_Main "HOL-Library.Char_ord" "HOL-Library.List_Lexorder" "HOL-Library.Log_Nat"
    "HOL-Library.Product_Lexorder" "HOL-Library.Multiset"
begin

section \<open>Python values, errors and strings\<close>

text \<open>
  A cell of a row (\<^verbatim>\<open>Mapping[str, object]\<close>) holds a Python object. The objects the
  pipeline stores in its tables are \<^verbatim>\<open>None\<close>, booleans, integers, floats (with NaN as a
  value of its own) and strings. A finite float is represented by the rational number it denotes.
\<close>

datatype pyval = PyNone | PyBool bool | PyInt int | PyFloat rat | PyNaN | PyStr string

datatype py_error = ValueError | TypeError | KeyError | AttributeError | ZeroDivisionError | InvalidOperation

type_synonym row = "string \<rightharpoonup> pyval"

text \<open>\<^verbatim>\<open>str.strip()\<close>, \<^verbatim>\<open>str.lower()\<close> and \<^verbatim>\<open>str.upper()\<close> on ASCII text.\<close>

definition is_space :: "char \<Rightarrow> bool" where
  "is_space c = (let n = (of_char c :: nat) in (9 \<le> n \<and> n \<le> 13) \<or> (28 \<le> n \<and> n \<le> 32))"

definition strip :: "string \<Rightarrow> string" where
  "strip s = rev (dropWhile is_space (rev (dropWhile is_space s)))"

definition lower_char :: "char \<Rightarrow> char" where
  "lower_char c = (let n = (of_char c :: nat) in if 65 \<le> n \<and> n \<le> 90 then char_of (n + 32) else c)"

definition upper_char :: "char \<Rightarrow> char" where
  "upper_char c = (let n = (of_char c :: nat) in if 97 \<le> n \<and> n \<le> 122 then char_of (n - 32) else c)"

definition lower :: "string \<Rightarrow> string" where
  "lower s = map lower_char s"

definition upper :: "string \<Rightarrow> string" where
  "upper s = map upper_char s"

text \<open>\<^verbatim>\<open>str(n)\<close> for an integer: the decimal digits, with a minus sign when negative.\<close>

fun str_nat :: "nat \<Rightarrow> string" where
  "str_nat n = (if n < 10 then [char_of (48 + n)] else str_nat (n div 10) @ [char_of (48 + n mod 10)])"

declare str_nat.simps [simp del]

definition str_int :: "int \<Rightarrow> string" where
  "str_int i = (if i < 0 then CHR ''-'' # str_nat (nat (- i)) else str_nat (nat i))"

section \<open>Double-precision arithmetic\<close>

text \<open>
  Python's \<^verbatim>\<open>float\<close> and NumPy's \<^verbatim>\<open>float64\<close> are IEEE binary64. A finite float is the
  rational it denotes; every operation computes the exact result and rounds it to the nearest
  number with a 53-bit significand, ties to the even significand. The exponent range is not
  bounded here: overflow to infinity and gradual underflow are outside the model, and NaN is
  kept apart as a missing value (\<open>None\<close>).
\<close>

definition round_half_even :: "rat \<Rightarrow> int" where
  "round_half_even y =
     (let f = \<lfloor>y\<rfloor>; d = y - of_int f in
      if d < 1 / 2 then f
      else if 1 / 2 < d then f + 1
      else if even f then f else f + 1)"

text \<open>Powers of two with an integer exponent.\<close>

definition pow2 :: "int \<Rightarrow> rat" where
  "pow2 e = (if 0 \<le> e then 2 ^ nat e else 1 / 2 ^ nat (- e))"

text \<open>The binary exponent of a non-zero number: \<open>pow2 (expo x) \<le> \<bar>x\<bar> < pow2 (expo x + 1)\<close>.\<close>

definition expo :: "rat \<Rightarrow> int" where
  "expo x =
     (let (p, q) = quotient_of \<bar>x\<bar>; e0 = bitlen p - bitlen q in
      if pow2 e0 \<le> \<bar>x\<bar> then e0 else e0 - 1)"

definition fl :: "rat \<Rightarrow> rat" where
  "fl x =
     (if x = 0 then 0
      else (let u = pow2 (expo x - 52) in of_int (round_half_even (x / u)) * u))"

definition fadd :: "rat \<Rightarrow> rat \<Rightarrow> rat" where
  "fadd x y = fl (x + y)"

definition fsub :: "rat \<Rightarrow> rat \<Rightarrow> rat" where
  "fsub x y = fl (x - y)"

definition fmul :: "rat \<Rightarrow> rat \<Rightarrow> rat" where
  "fmul x y = fl (x * y)"

definition fdiv :: "rat \<Rightarrow> rat \<Rightarrow> rat" where
  "fdiv x y = fl (x / y)"

section \<open>fill\_models.py\<close>

datatype FillModel = IDEAL | CONSERVATIVE

text \<open>The argument \<^verbatim>\<open>model: FillModel | str\<close>.\<close>

datatype model_arg = ModelEnum FillModel | ModelStr string

text \<open>
  \<^verbatim>\<open>_normalize_model\<close>: an enum member is returned as it is; anything else goes through
  \<^verbatim>\<open>FillModel(str(model).strip().upper())\<close>, which raises \<^verbatim>\<open>ValueError\<close> when the text
  is not the value of a member.
\<close>

definition normalize_model :: "model_arg \<Rightarrow> py_error + FillModel" where
  "normalize_model model =
     (case model of
        ModelEnum m \<Rightarrow> Inr m
      | ModelStr s \<Rightarrow>
          (let text = upper (strip s) in
           if text = ''IDEAL'' then Inr IDEAL
           else if text = ''CONSERVATIVE'' then Inr CONSERVATIVE
           else Inl ValueError))"

text \<open>
  \<^verbatim>\<open>_as_bool\<close>. A boolean is returned as it is. Otherwise \<^verbatim>\<open>str(value).strip().lower()\<close>
  is looked up in the two literal sets, and a text in neither set falls back to Python's
  truthiness \<^verbatim>\<open>bool(value)\<close>. \<^verbatim>\<open>str(None)\<close> is \<^verbatim>\<open>None\<close> and \<^verbatim>\<open>str(float('nan'))\<close> is
  \<^verbatim>\<open>nan\<close>. The text of a finite float always holds a decimal point or an exponent, so it is
  in neither set and the fallback \<^verbatim>\<open>bool(value)\<close> decides: the float is true when it is not zero.
\<close>

definition true_texts :: "string list" where
  "true_texts = [''1'', ''true'', ''t'', ''yes'', ''y'']"

definition false_texts :: "string list" where
  "false_texts = [''0'', ''false'', ''f'', ''no'', ''n'', '''', ''nan'']"

definition text_as_bool :: "string \<Rightarrow> bool \<Rightarrow> bool" where
  "text_as_bool s truthy =
     (let text = lower (strip s) in
      if text \<in> set true_texts then True
      else if text \<in> set false_texts then False
      else truthy)"

fun as_bool :: "pyval \<Rightarrow> bool" where
  "as_bool (PyBool b) = b"
| "as_bool PyNone = text_as_bool ''None'' False"
| "as_bool (PyInt i) = text_as_bool (str_int i) (i \<noteq> 0)"
| "as_bool (PyFloat x) = (x \<noteq> 0)"
| "as_bool PyNaN = text_as_bool ''nan'' True"
| "as_bool (PyStr s) = text_as_bool s (s \<noteq> [])"

text \<open>\<^verbatim>\<open>_get_flag(row, primary_key, alias_key=None)\<close>.\<close>

definition get_flag :: "row \<Rightarrow> string \<Rightarrow> string option \<Rightarrow> bool" where
  "get_flag r primary_key alias_key =
     (case r primary_key of
        Some v \<Rightarrow> as_bool v
      | None \<Rightarrow>
          (case alias_key of
             None \<Rightarrow> False
           | Some a \<Rightarrow> (case r a of Some v \<Rightarrow> as_bool v | None \<Rightarrow> False)))"

definition can_buy_limitup_day :: "row \<Rightarrow> model_arg \<Rightarrow> py_error + bool" where
  "can_buy_limitup_day r model =
     (case normalize_model model of
        Inl e \<Rightarrow> Inl e
      | Inr fill_model \<Rightarrow>
          (let is_limit_up = get_flag r ''label_limit_up'' (Some ''is_limit_up'') in
           if \<not> is_limit_up then Inr False
           else if fill_model = IDEAL then Inr True
           else
             (let is_sealed = get_flag r ''label_sealed'' (Some ''sealed'');
                  is_one_word = get_flag r ''label_one_word'' (Some ''one_word'')
              in Inr (\<not> (is_sealed \<or> is_one_word)))))"

text \<open>
  \<^verbatim>\<open>pd.to_numeric(pd.Series([v]), errors="coerce").iloc[0]\<close> followed by \<^verbatim>\<open>pd.isna\<close>, read
  as a double: \<open>None\<close> stands for NaN. A float is kept, an integer is converted to the
  nearest double, a boolean counts as 0 or 1, \<^verbatim>\<open>None\<close> and NaN are missing. The library's
  parser of numeric text is the parameter \<open>parse_num\<close>; text it rejects is coerced to NaN.
\<close>

fun to_numeric :: "(string \<Rightarrow> rat option) \<Rightarrow> pyval \<Rightarrow> rat option" where
  "to_numeric parse_num (PyFloat x) = Some x"
| "to_numeric parse_num (PyInt i) = Some (fl (of_int i))"
| "to_numeric parse_num (PyBool b) = Some (if b then 1 else 0)"
| "to_numeric parse_num (PyStr s) = parse_num s"
| "to_numeric parse_num PyNone = None"
| "to_numeric parse_num PyNaN = None"

definition entry_price :: "(string \<Rightarrow> rat option) \<Rightarrow> row \<Rightarrow> model_arg \<Rightarrow> py_error + rat" where
  "entry_price parse_num r model =
     (case normalize_model model of
        Inl e \<Rightarrow> Inl e
      | Inr _ \<Rightarrow>
          (case r ''close'' of
             None \<Rightarrow> Inl ValueError
           | Some v \<Rightarrow>
               (case to_numeric parse_num v of
                  None \<Rightarrow> Inl ValueError
                | Some close_price \<Rightarrow> Inr close_price)))"

section \<open>labels.py\<close>

text \<open>
  The labelling functions map over the rows of the table, and a row's labels depend on that row
  only. A row is the dictionary of its cells; a function that adds a column stores a key.
  The limit price of a row (\<^verbatim>\<open>calculate_limit_price\<close>: instrument lookup, rule set and
  decimal rounding, read from the cells \<^verbatim>\<open>ts_code\<close> and \<^verbatim>\<open>pre_close\<close>) and the applicability
  of the price limit (\<^verbatim>\<open>is_price_limit_applicable\<close> on the looked-up instrument, read from
  \<^verbatim>\<open>ts_code\<close> and \<^verbatim>\<open>trade_date\<close>) are the parameters \<open>limit_price_of\<close> and
  \<open>applicable_of\<close>; either may raise.
\<close>

definition DEFAULT_EPS :: rat where
  "DEFAULT_EPS = fl (1 / 10 ^ 6)"

text \<open>\<^verbatim>\<open>_check_daily_columns\<close> on one row: every required column is a key of the row.\<close>

definition check_daily_columns :: "row \<Rightarrow> string list \<Rightarrow> bool" where
  "check_daily_columns r required_columns = list_all (\<lambda>c. r c \<noteq> None) required_columns"

text \<open>\<^verbatim>\<open>pd.to_numeric(column, errors="coerce")\<close> at one row.\<close>

definition num_cell :: "(string \<Rightarrow> rat option) \<Rightarrow> row \<Rightarrow> string \<Rightarrow> rat option" where
  "num_cell parse_num r c = (case r c of None \<Rightarrow> None | Some v \<Rightarrow> to_numeric parse_num v)"

text \<open>
  \<^verbatim>\<open>np.isclose(a, b, atol=eps, rtol=0.0)\<close> is \<^verbatim>\<open>abs(a - b) <= atol + rtol * abs(b)\<close>, and
  false when either side is NaN.
\<close>

definition isclose :: "rat option \<Rightarrow> rat option \<Rightarrow> rat \<Rightarrow> bool" where
  "isclose a b eps =
     (case (a, b) of
        (Some x, Some y) \<Rightarrow> \<bar>fsub x y\<bar> \<le> fadd eps (fmul 0 \<bar>y\<bar>)
      | _ \<Rightarrow> False)"

definition is_close_to_limit :: "(string \<Rightarrow> rat option) \<Rightarrow> row \<Rightarrow> string \<Rightarrow> rat \<Rightarrow> bool" where
  "is_close_to_limit parse_num r value_column eps =
     isclose (num_cell parse_num r value_column) (num_cell parse_num r ''limit_up_price'') eps"

definition float_cell :: "rat option \<Rightarrow> pyval" where
  "float_cell x = (case x of None \<Rightarrow> PyNaN | Some y \<Rightarrow> PyFloat y)"

definition add_limit_prices :: "(pyval \<Rightarrow> pyval \<Rightarrow> py_error + rat option) \<Rightarrow> row \<Rightarrow> py_error + row" where
  "add_limit_prices limit_price_of r =
     (case (r ''ts_code'', r ''pre_close'') of
        (Some code, Some pre_close) \<Rightarrow>
          (case limit_price_of code pre_close of
             Inl e \<Rightarrow> Inl e
           | Inr p \<Rightarrow> Inr (r(''limit_up_price'' \<mapsto> float_cell p)))
      | _ \<Rightarrow> Inl ValueError)"

definition label_limit_up ::
  "(string \<Rightarrow> rat option) \<Rightarrow> (pyval \<Rightarrow> pyval \<Rightarrow> py_error + rat option)
     \<Rightarrow> (pyval \<Rightarrow> pyval \<Rightarrow> py_error + bool) \<Rightarrow> rat \<Rightarrow> row \<Rightarrow> py_error + row" where
  "label_limit_up parse_num limit_price_of applicable_of eps r =
     (if \<not> check_daily_columns r [''ts_code'', ''trade_date'', ''high'', ''close'', ''pre_close'']
      then Inl ValueError
      else (case add_limit_prices limit_price_of r of
              Inl e \<Rightarrow> Inl e
            | Inr output_daily \<Rightarrow>
                (case (output_daily ''ts_code'', output_daily ''trade_date'') of
                   (Some code, Some trade_date) \<Rightarrow>
                     (case applicable_of code trade_date of
                        Inl e \<Rightarrow> Inl e
                      | Inr applicable \<Rightarrow>
                          (let close_hits_limit = is_close_to_limit parse_num output_daily ''close'' eps;
                               high_hits_limit = is_close_to_limit parse_num output_daily ''high'' eps
                           in Inr (output_daily
                                (''price_limit_applicable'' \<mapsto> PyBool applicable,
                                 ''label_limit_up'' \<mapsto>
                                    PyBool (applicable \<and> close_hits_limit \<and> high_hits_limit)))))
                 | _ \<Rightarrow> Inl ValueError)))"

text \<open>
  The label columns are read back as booleans. \<^verbatim>\<open>label_limit_up\<close> and
  \<^verbatim>\<open>price_limit_applicable\<close> were stored by \<^verbatim>\<open>label_limit_up\<close> just before, as booleans.
\<close>

definition bool_cell :: "row \<Rightarrow> string \<Rightarrow> bool" where
  "bool_cell r c = (case r c of Some (PyBool b) \<Rightarrow> b | _ \<Rightarrow> False)"

definition label_one_word ::
  "(string \<Rightarrow> rat option) \<Rightarrow> (pyval \<Rightarrow> pyval \<Rightarrow> py_error + rat option)
     \<Rightarrow> (pyval \<Rightarrow> pyval \<Rightarrow> py_error + bool) \<Rightarrow> rat \<Rightarrow> row \<Rightarrow> py_error + row" where
  "label_one_word parse_num limit_price_of applicable_of eps r =
     (if \<not> check_daily_columns r
            [''open'', ''high'', ''low'', ''close'', ''trade_date'', ''ts_code'', ''pre_close'']
      then Inl ValueError
      else (case label_limit_up parse_num limit_price_of applicable_of eps r of
              Inl e \<Rightarrow> Inl e
            | Inr output_daily \<Rightarrow>
                (let open_hits_limit = is_close_to_limit parse_num output_daily ''open'' eps;
                     high_hits_limit = is_close_to_limit parse_num output_daily ''high'' eps;
                     low_hits_limit = is_close_to_limit parse_num output_daily ''low'' eps;
                     close_hits_limit = is_close_to_limit parse_num output_daily ''close'' eps
                 in Inr (output_daily
                      (''label_one_word'' \<mapsto>
                         PyBool (bool_cell output_daily ''label_limit_up''
                                 \<and> open_hits_limit \<and> high_hits_limit
                                 \<and> low_hits_limit \<and> close_hits_limit))))))"

text \<open>\<^verbatim>\<open>low < limit_up_price - eps\<close>, false when either side is NaN.\<close>

definition low_below_limit :: "(string \<Rightarrow> rat option) \<Rightarrow> row \<Rightarrow> rat \<Rightarrow> bool" where
  "low_below_limit parse_num r eps =
     (case (num_cell parse_num r ''low'', num_cell parse_num r ''limit_up_price'') of
        (Some lo, Some limit_price) \<Rightarrow> lo < fsub limit_price eps
      | _ \<Rightarrow> False)"

definition label_opened ::
  "(string \<Rightarrow> rat option) \<Rightarrow> (pyval \<Rightarrow> pyval \<Rightarrow> py_error + rat option)
     \<Rightarrow> (pyval \<Rightarrow> pyval \<Rightarrow> py_error + bool) \<Rightarrow> rat \<Rightarrow> row \<Rightarrow> py_error + row" where
  "label_opened parse_num limit_price_of applicable_of eps r =
     (if \<not> check_daily_columns r [''high'', ''low'', ''trade_date'', ''ts_code'', ''pre_close'']
      then Inl ValueError
      else (case label_limit_up parse_num limit_price_of applicable_of eps r of
              Inl e \<Rightarrow> Inl e
            | Inr output_daily \<Rightarrow>
                (let high_hits_limit = is_close_to_limit parse_num output_daily ''high'' eps
                 in Inr (output_daily
                      (''label_opened'' \<mapsto>
                         PyBool (bool_cell output_daily ''price_limit_applicable''
                                 \<and> high_hits_limit
                                 \<and> low_below_limit parse_num output_daily eps))))))"

definition label_sealed ::
  "(string \<Rightarrow> rat option) \<Rightarrow> (pyval \<Rightarrow> pyval \<Rightarrow> py_error + rat option)
     \<Rightarrow> (pyval \<Rightarrow> pyval \<Rightarrow> py_error + bool) \<Rightarrow> rat \<Rightarrow> row \<Rightarrow> py_error + row" where
  "label_sealed parse_num limit_price_of applicable_of eps r =
     (case label_opened parse_num limit_price_of applicable_of eps r of
        Inl e \<Rightarrow> Inl e
      | Inr output_daily \<Rightarrow>
          Inr (output_daily
            (''label_sealed'' \<mapsto>
               PyBool (bool_cell output_daily ''label_limit_up''
                       \<and> \<not> bool_cell output_daily ''label_opened''))))"

text \<open>
  The labelling pipeline of the report builder: \<^verbatim>\<open>label_one_word\<close> on the bars, then
  \<^verbatim>\<open>label_sealed\<close> on its output, both with the default tolerance.
\<close>

definition label_pipeline ::
  "(string \<Rightarrow> rat option) \<Rightarrow> (pyval \<Rightarrow> pyval \<Rightarrow> py_error + rat option)
     \<Rightarrow> (pyval \<Rightarrow> pyval \<Rightarrow> py_error + bool) \<Rightarrow> row \<Rightarrow> py_error + row" where
  "label_pipeline parse_num limit_price_of applicable_of r =
     (case label_one_word parse_num limit_price_of applicable_of DEFAULT_EPS r of
        Inl e \<Rightarrow> Inl e
      | Inr with_one_word \<Rightarrow>
          label_sealed parse_num limit_price_of applicable_of DEFAULT_EPS with_one_word)"

text \<open>The value \<^verbatim>\<open>label_limit_up\<close> stores for a row, given its limit price and applicability.\<close>

definition limit_up_value ::
  "(string \<Rightarrow> rat option) \<Rightarrow> rat \<Rightarrow> row \<Rightarrow> rat option \<Rightarrow> bool \<Rightarrow> bool" where
  "limit_up_value parse_num eps r p a =
     (a \<and> isclose (num_cell parse_num r ''close'') p eps
        \<and> isclose (num_cell parse_num r ''high'') p eps)"

text \<open>A bar that trades at the cap all day: previous close 10, every price 11.\<close>

definition one_word_bar :: row where
  "one_word_bar =
     [''ts_code'' \<mapsto> PyStr ''AAA'', ''trade_date'' \<mapsto> PyStr ''20240102'',
      ''open'' \<mapsto> PyFloat 11, ''high'' \<mapsto> PyFloat 11, ''low'' \<mapsto> PyFloat 11,
      ''close'' \<mapsto> PyFloat 11, ''pre_close'' \<mapsto> PyFloat 10]"


section \<open>limits.py: the limit price\<close>

text \<open>
  \<^verbatim>\<open>compute_limit_price\<close> works on \<^verbatim>\<open>decimal.Decimal\<close> in the default context: 28
  significant digits, arithmetic rounded half-even. A decimal is a signed integer coefficient
  and an exponent; \<^verbatim>\<open>Decimal(str(x))\<close> is exact, so the arguments are the decimals the texts
  denote. Addition and multiplication compute the exact result and pass it through the
  context's \<^verbatim>\<open>_fix\<close>, which rounds a coefficient of more than 28 digits. \<^verbatim>\<open>quantize\<close> rescales
  to the exponent of \<^verbatim>\<open>0.01\<close> with the rounding it is given and raises
  \<^verbatim>\<open>InvalidOperation\<close> when the result would need more than 28 digits. The exponent limits
  of the context (\<open>\<plusminus>999999\<close>) and the special values are outside the model.
\<close>

datatype decimal = Decimal (coefficient: int) (exponent: int)

definition dec_value :: "decimal \<Rightarrow> rat" where
  "dec_value d = of_int (coefficient d) * power_int 10 (exponent d)"

text \<open>The number of decimal digits of a coefficient; the coefficient 0 has one digit.\<close>

function ndigits :: "int \<Rightarrow> nat" where
  "ndigits n = (if n < 10 then 1 else Suc (ndigits (n div 10)))"
  by pat_completeness auto
termination
  by (relation "measure nat") auto

text \<open>The two rounding modes the function meets.\<close>

datatype rounding = ROUND_HALF_EVEN | ROUND_HALF_UP

text \<open>
  Dropping the last \<open>k\<close> digits of a coefficient: \<^verbatim>\<open>_round_half_up\<close> rounds the magnitude up
  when the first dropped digit is 5 or more, \<^verbatim>\<open>_round_half_even\<close> rounds an exact half to the
  even neighbour.
\<close>

definition drop_digits :: "rounding \<Rightarrow> int \<Rightarrow> nat \<Rightarrow> int" where
  "drop_digits mode c k =
     (let q = \<bar>c\<bar> div 10 ^ k; r = \<bar>c\<bar> mod 10 ^ k;
          up = (case mode of
                  ROUND_HALF_UP \<Rightarrow> 10 ^ k \<le> 2 * r
                | ROUND_HALF_EVEN \<Rightarrow> 10 ^ k < 2 * r \<or> (2 * r = 10 ^ k \<and> odd q))
      in sgn c * (if up then q + 1 else q))"

definition context_prec :: nat where
  "context_prec = 28"

text \<open>
  \<^verbatim>\<open>_fix\<close>: a coefficient of more than 28 digits is rounded to 28; when the rounding carries
  into a 29th digit, the trailing zero is dropped.
\<close>

definition dec_fix :: "decimal \<Rightarrow> decimal" where
  "dec_fix d =
     (let n = ndigits \<bar>coefficient d\<bar> in
      if n \<le> context_prec then d
      else (let k = n - context_prec; c = drop_digits ROUND_HALF_EVEN (coefficient d) k in
            if context_prec < ndigits \<bar>c\<bar> then Decimal (c div 10) (exponent d + int k + 1)
            else Decimal c (exponent d + int k)))"

text \<open>The exact sum and product, before the context rounds them.\<close>

definition add_exact :: "decimal \<Rightarrow> decimal \<Rightarrow> decimal" where
  "add_exact a b =
     (let e = min (exponent a) (exponent b) in
      Decimal (coefficient a * 10 ^ nat (exponent a - e) + coefficient b * 10 ^ nat (exponent b - e)) e)"

definition mul_exact :: "decimal \<Rightarrow> decimal \<Rightarrow> decimal" where
  "mul_exact a b = Decimal (coefficient a * coefficient b) (exponent a + exponent b)"

definition dec_add :: "decimal \<Rightarrow> decimal \<Rightarrow> decimal" where
  "dec_add a b = dec_fix (add_exact a b)"

definition dec_mul :: "decimal \<Rightarrow> decimal \<Rightarrow> decimal" where
  "dec_mul a b = dec_fix (mul_exact a b)"

definition fits_context :: "decimal \<Rightarrow> bool" where
  "fits_context d = (ndigits \<bar>coefficient d\<bar> \<le> context_prec)"

definition rescale :: "decimal \<Rightarrow> int \<Rightarrow> rounding \<Rightarrow> decimal" where
  "rescale d e mode =
     (if e \<le> exponent d then Decimal (coefficient d * 10 ^ nat (exponent d - e)) e
      else Decimal (drop_digits mode (coefficient d) (nat (e - exponent d))) e)"

definition quantize :: "decimal \<Rightarrow> int \<Rightarrow> rounding \<Rightarrow> py_error + decimal" where
  "quantize d e mode =
     (if coefficient d = 0 then Inr (Decimal 0 e)
      else if int context_prec < int (ndigits \<bar>coefficient d\<bar>) + exponent d - e then Inl InvalidOperation
      else (let ans = rescale d e mode in
            if context_prec < ndigits \<bar>coefficient ans\<bar> then Inl InvalidOperation else Inr ans))"

definition compute_limit_price :: "decimal \<Rightarrow> decimal \<Rightarrow> py_error + decimal" where
  "compute_limit_price pre_close up =
     (let multiplier = dec_add (Decimal 1 0) up
      in quantize (dec_mul pre_close multiplier) (- 2) ROUND_HALF_UP)"

text \<open>
  The specification's rounding: a rational rounded to a whole number of hundredths, ties away
  from zero.
\<close>

definition round_half_up_cents :: "rat \<Rightarrow> int" where
  "round_half_up_cents x = (if x < 0 then - 1 else 1) * \<lfloor>\<bar>x\<bar> * 100 + 1 / 2\<rfloor>"

section \<open>streaks.py: the streak tracker\<close>

text \<open>
  A table is the list of its rows in the caller's order, and the row at position \<open>i\<close> carries
  the index label \<open>i\<close> (the default \<^verbatim>\<open>RangeIndex\<close>), so \<^verbatim>\<open>sort_index()\<close> restores the
  caller's order. A bar is its instrument code, its trade date and the rest of the row.
  \<^verbatim>\<open>market_trade_positions\<close> maps a date of the calendar to its position in it.
\<close>

definition position_of :: "'a list \<Rightarrow> 'a \<Rightarrow> nat" where
  "position_of xs x = length (takeWhile (\<lambda>y. y \<noteq> x) xs)"

type_synonym ('c, 'd, 'p) bar = "'c \<times> 'd \<times> 'p"

definition bar_code :: "('c, 'd, 'p) bar \<Rightarrow> 'c" where
  "bar_code b = fst b"

definition bar_date :: "('c, 'd, 'p) bar \<Rightarrow> 'd" where
  "bar_date b = fst (snd b)"

definition bar_flag :: "('c, 'd, bool) bar \<Rightarrow> bool" where
  "bar_flag b = snd (snd b)"

text \<open>
  The inner loop over the rows of one instrument. The state is
  \<open>(previous_streak, previous_is_limit_up, previous_trade_position)\<close>;
  \<^verbatim>\<open>sorted_daily.at[row_index, "streak_up"] = current_streak\<close> updates the column at the
  row's index.
\<close>

fun scan_stock ::
  "('d \<Rightarrow> nat) \<Rightarrow> nat \<times> bool \<times> nat option \<Rightarrow> (nat \<times> ('c, 'd, bool) bar) list \<Rightarrow> nat list \<Rightarrow> nat list" where
  "scan_stock market_trade_positions st [] streak_up = streak_up"
| "scan_stock market_trade_positions (previous_streak, previous_is_limit_up, previous_trade_position)
       ((row_index, r) # rest) streak_up =
     (let current_is_limit_up = bar_flag r;
          current_trade_position = market_trade_positions (bar_date r);
          is_continuous =
            (case previous_trade_position of
               None \<Rightarrow> False
             | Some p \<Rightarrow> int current_trade_position - int p = 1);
          current_streak =
            (if current_is_limit_up
             then (if previous_is_limit_up \<and> is_continuous then previous_streak + 1 else 1)
             else 0)
      in scan_stock market_trade_positions
           (current_streak, current_is_limit_up, Some current_trade_position)
           rest (streak_up[row_index := current_streak]))"

text \<open>\<^verbatim>\<open>sorted(labeled_daily["trade_date"].unique().tolist())\<close>.\<close>

definition market_calendar :: "('c, 'd::linorder, 'p) bar list \<Rightarrow> 'd list" where
  "market_calendar labeled_daily = sort (remdups (map bar_date labeled_daily))"

text \<open>
  \<^verbatim>\<open>labeled_daily.sort_values(["ts_code", "trade_date"])\<close>: a sort on several columns is
  stable, as \<open>sort_key\<close> is. Each row keeps its index label.
\<close>

definition sort_daily ::
  "('c::linorder, 'd::linorder, 'p) bar list \<Rightarrow> (nat \<times> ('c, 'd, 'p) bar) list" where
  "sort_daily labeled_daily =
     sort_key (\<lambda>(i, r). (bar_code r, bar_date r)) (zip [0..<length labeled_daily] labeled_daily)"

text \<open>The group of one instrument in \<^verbatim>\<open>sorted_daily.groupby("ts_code", sort=False)\<close>.\<close>

definition stock_rows ::
  "(nat \<times> ('c, 'd, 'p) bar) list \<Rightarrow> 'c \<Rightarrow> (nat \<times> ('c, 'd, 'p) bar) list" where
  "stock_rows S c = filter (\<lambda>(i, r). bar_code r = c) S"

text \<open>
  Row \<open>j\<close> is observed before row \<open>i\<close>: same instrument, earlier date, or the same date
  and earlier in the table. The previous observed row of \<open>i\<close> is the last row before it.
\<close>

definition before :: "('c, 'd::linorder, 'p) bar list \<Rightarrow> nat \<Rightarrow> nat \<Rightarrow> bool" where
  "before bars j i =
     (bar_code (bars ! j) = bar_code (bars ! i)
      \<and> (bar_date (bars ! j), j) < (bar_date (bars ! i), i))"

definition previous_row :: "('c, 'd::linorder, 'p) bar list \<Rightarrow> nat \<Rightarrow> nat \<Rightarrow> bool" where
  "previous_row bars p i =
     (p < length bars \<and> before bars p i
      \<and> (\<forall>j<length bars. \<not> (before bars p j \<and> before bars j i)))"

text \<open>
  The body of \<^verbatim>\<open>compute_limitup_streak\<close> after the two columns are normalised: the column
  \<^verbatim>\<open>streak_up\<close> starts at 0, the groups are scanned in order of first appearance, and the
  result is the column in the caller's row order.
\<close>

definition streak_core :: "('c::linorder, 'd::linorder, bool) bar list \<Rightarrow> nat list" where
  "streak_core labeled_daily =
     (let market_trade_positions = position_of (market_calendar labeled_daily);
          sorted_daily = sort_daily labeled_daily;
          stock_codes = remdups (map (\<lambda>(i, r). bar_code r) sorted_daily)
      in fold (\<lambda>stock_code streak_up.
                 scan_stock market_trade_positions (0, False, None)
                   (stock_rows sorted_daily stock_code) streak_up)
              stock_codes (replicate (length labeled_daily) 0))"

text \<open>The list of \<^verbatim>\<open>current_streak\<close> values the inner loop computes, row by row.\<close>

fun cur_list ::
  "('d \<Rightarrow> nat) \<Rightarrow> nat \<times> bool \<times> nat option \<Rightarrow> (nat \<times> ('c, 'd, bool) bar) list \<Rightarrow> nat list" where
  "cur_list pos st [] = []"
| "cur_list pos (ps, pl, pp) ((i, r) # rest) =
     (let cp = pos (bar_date r);
          cur = (if bar_flag r
                 then (if pl \<and> (case pp of None \<Rightarrow> False | Some p \<Rightarrow> int cp - int p = 1)
                       then ps + 1 else 1)
                 else 0)
      in cur # cur_list pos (cur, bar_flag r, Some cp) rest)"

text \<open>
  \<^verbatim>\<open>_coerce_bool_series\<close> at one cell: a boolean is kept; any other value is true when its
  text, stripped and lower-cased, is one of the true texts. The text of a float holds a
  decimal point, and a missing value is not a text, so both are false.
\<close>

definition coerce_bool :: "pyval \<Rightarrow> bool" where
  "coerce_bool v =
     (case v of
        PyBool b \<Rightarrow> b
      | PyStr s \<Rightarrow> lower (strip s) \<in> set true_texts
      | PyInt i \<Rightarrow> lower (strip (str_int i)) \<in> set true_texts
      | _ \<Rightarrow> False)"

text \<open>
  \<^verbatim>\<open>_normalize_trade_date_series\<close>: every text is stripped and parsed; one unparseable
  text raises \<^verbatim>\<open>ValueError\<close>. The parameter \<open>to_yyyymmdd\<close> is
  \<^verbatim>\<open>pd.to_datetime(text, errors="coerce")\<close> followed by \<^verbatim>\<open>strftime("%Y%m%d")\<close>, with
  \<open>None\<close> for \<^verbatim>\<open>NaT\<close>.
\<close>

definition normalize_trade_date_series ::
  "(string \<Rightarrow> string option) \<Rightarrow> string list \<Rightarrow> py_error + string list" where
  "normalize_trade_date_series to_yyyymmdd trade_dates =
     (case those (map (\<lambda>d. to_yyyymmdd (strip d)) trade_dates) of
        None \<Rightarrow> Inl ValueError
      | Some normalized \<Rightarrow> Inr normalized)"

text \<open>
  \<^verbatim>\<open>compute_limitup_streak\<close>. The input rows are (\<^verbatim>\<open>ts_code\<close>, \<^verbatim>\<open>trade_date\<close>,
  \<^verbatim>\<open>label_limit_up\<close>); the output rows hold the normalised date, the coerced flag and
  \<^verbatim>\<open>streak_up\<close>.
\<close>

definition compute_limitup_streak ::
  "(string \<Rightarrow> string option) \<Rightarrow> (string, string, pyval) bar list
     \<Rightarrow> py_error + ((string, string, bool) bar \<times> nat) list" where
  "compute_limitup_streak to_yyyymmdd daily_df =
     (case normalize_trade_date_series to_yyyymmdd (map bar_date daily_df) of
        Inl e \<Rightarrow> Inl e
      | Inr trade_dates \<Rightarrow>
          (let labeled_daily =
                 map2 (\<lambda>r d. (bar_code r, d, coerce_bool (snd (snd r)))) daily_df trade_dates
           in Inr (zip labeled_daily (streak_core labeled_daily))))"

text \<open>A date parser that keeps every text as it is (the texts below are normalised already).\<close>

definition keep_text :: "string \<Rightarrow> string option" where
  "keep_text s = Some s"

text \<open>The table of the repository's gap test: AAA misses 20240103.\<close>

definition gap_table :: "(string, string, pyval) bar list" where
  "gap_table =
     [(''AAA'', ''20240102'', PyBool True), (''AAA'', ''20240104'', PyBool True),
      (''BBB'', ''20240102'', PyBool False), (''BBB'', ''20240103'', PyBool False),
      (''BBB'', ''20240104'', PyBool False)]"

definition gap_table_out :: "((string, string, bool) bar \<times> nat) list" where
  "gap_table_out =
     [((''AAA'', ''20240102'', True), 1), ((''AAA'', ''20240104'', True), 1),
      ((''BBB'', ''20240102'', False), 0), ((''BBB'', ''20240103'', False), 0),
      ((''BBB'', ''20240104'', False), 0)]"

text \<open>A table with its rows permuted: row \<open>k\<close> of the result is row \<open>\<pi> k\<close> of the table.\<close>

definition permute_rows :: "(nat \<Rightarrow> nat) \<Rightarrow> 'a list \<Rightarrow> 'a list" where
  "permute_rows \<pi> xs = map (\<lambda>k. xs ! \<pi> k) [0..<length xs]"



section \<open>returns.py: the forward-return engine\<close>

text \<open>
  A price row is (\<^verbatim>\<open>ts_code\<close>, \<^verbatim>\<open>trade_date\<close>, \<^verbatim>\<open>open\<close>, \<^verbatim>\<open>close\<close>); the two prices are
  cells as the table holds them.
\<close>

type_synonym price_row = "(string, string, pyval \<times> pyval) bar"

definition bar_open :: "('c, 'd, pyval \<times> pyval) bar \<Rightarrow> pyval" where
  "bar_open r = fst (snd (snd r))"

definition bar_close :: "('c, 'd, pyval \<times> pyval) bar \<Rightarrow> pyval" where
  "bar_close r = snd (snd (snd r))"

text \<open>
  \<^verbatim>\<open>_parse_trade_date\<close>: the sort key of every row, or \<^verbatim>\<open>ValueError\<close> when one text does
  not parse. The parameter \<open>to_datetime\<close> is \<^verbatim>\<open>pd.to_datetime(text, errors="coerce")\<close>,
  with \<open>None\<close> for \<^verbatim>\<open>NaT\<close>; its values are ordered as timestamps are.
\<close>

definition parse_trade_date :: "(string \<Rightarrow> 'd option) \<Rightarrow> string list \<Rightarrow> py_error + 'd list" where
  "parse_trade_date to_datetime trade_dates =
     (case those (map (\<lambda>d. to_datetime (strip d)) trade_dates) of
        None \<Rightarrow> Inl ValueError
      | Some parsed_dates \<Rightarrow> Inr parsed_dates)"

text \<open>
  \<^verbatim>\<open>_compute_forward_return\<close> at one row: NaN unless both numbers are there and the close is
  not zero; then \<^verbatim>\<open>next_price / current_close - 1.0\<close> in double precision.
\<close>

definition compute_forward_return ::
  "(string \<Rightarrow> rat option) \<Rightarrow> pyval \<Rightarrow> pyval \<Rightarrow> rat option" where
  "compute_forward_return parse_num next_price current_close =
     (case (to_numeric parse_num current_close, to_numeric parse_num next_price) of
        (Some current_close_float, Some next_price_float) \<Rightarrow>
          if current_close_float \<noteq> 0
          then Some (fsub (fdiv next_price_float current_close_float) 1)
          else None
      | _ \<Rightarrow> None)"

text \<open>The working table: every row with its \<^verbatim>\<open>_trade_sort_key\<close>.\<close>

definition keyed_rows :: "price_row list \<Rightarrow> 'd list \<Rightarrow> (string, 'd, price_row) bar list" where
  "keyed_rows daily_df keys = map2 (\<lambda>r k. (bar_code r, k, r)) daily_df keys"

text \<open>\<^verbatim>\<open>sort_values(["ts_code", "_trade_sort_key", "_original_index"])\<close>.\<close>

definition sort_with_index ::
  "('c::linorder, 'd::linorder, 'p) bar list \<Rightarrow> (nat \<times> ('c, 'd, 'p) bar) list" where
  "sort_with_index output_daily =
     sort_key (\<lambda>(i, r). (bar_code r, bar_date r, i)) (zip [0..<length output_daily] output_daily)"

text \<open>
  \<^verbatim>\<open>groupby("ts_code")[...].shift(-1)\<close> on one group: every row, by its index label, gets
  the prices of the row after it, and the last row gets NaN.
\<close>

definition shift_next :: "(nat \<times> ('c, 'd, price_row) bar) list \<Rightarrow> (nat \<times> pyval \<times> pyval) list" where
  "shift_next stock_daily =
     zip (map fst stock_daily)
         (map (\<lambda>(i, r). (bar_open (snd (snd r)), bar_close (snd (snd r)))) (tl stock_daily)
            @ [(PyNaN, PyNaN)])"

definition next_prices :: "(nat \<times> ('c, 'd, price_row) bar) list \<Rightarrow> (nat \<times> pyval \<times> pyval) list" where
  "next_prices sorted_daily =
     concat (map (\<lambda>stock_code. shift_next (stock_rows sorted_daily stock_code))
               (remdups (map (\<lambda>(i, r). bar_code r) sorted_daily)))"

text \<open>
  \<^verbatim>\<open>add_next_day_returns\<close>. The shifted prices are aligned with the sorted table by index
  label; the result is sorted by \<^verbatim>\<open>_original_index\<close> and the helper columns are dropped.
  An output row is the input row with \<^verbatim>\<open>next_open_ret\<close> and \<^verbatim>\<open>next_close_ret\<close>, where
  \<open>None\<close> is NaN.
\<close>

definition add_next_day_returns ::
  "(string \<Rightarrow> 'd::linorder option) \<Rightarrow> (string \<Rightarrow> rat option) \<Rightarrow> price_row list
     \<Rightarrow> py_error + (price_row \<times> rat option \<times> rat option) list" where
  "add_next_day_returns to_datetime parse_num daily_df =
     (case parse_trade_date to_datetime (map bar_date daily_df) of
        Inl e \<Rightarrow> Inl e
      | Inr keys \<Rightarrow>
          (let sorted_daily = sort_with_index (keyed_rows daily_df keys);
               shifted = map_of (next_prices sorted_daily);
               with_returns =
                 map (\<lambda>(i, r).
                        (let (next_open_price, next_close_price) =
                               (case shifted i of None \<Rightarrow> (PyNaN, PyNaN) | Some v \<Rightarrow> v);
                             current_close = bar_close (snd (snd r))
                         in (i, snd (snd r),
                             compute_forward_return parse_num next_open_price current_close,
                             compute_forward_return parse_num next_close_price current_close)))
                     sorted_daily
           in Inr (map snd (sort_key fst with_returns))))"

text \<open>The table of the repository's forward-return test, which is not sorted by date.\<close>

definition returns_table :: "price_row list" where
  "returns_table =
     [(''AAA'', ''20240103'', PyFloat 11, PyFloat 12), (''AAA'', ''20240102'', PyFloat 10, PyFloat 10),
      (''BBB'', ''20240102'', PyFloat 20, PyFloat 20), (''BBB'', ''20240103'', PyFloat 19, PyFloat 18)]"


text \<open>A parser of numeric text that rejects every text (the tables below hold floats).\<close>

definition no_numeric_text :: "string \<Rightarrow> rat option" where
  "no_numeric_text s = None"

section \<open>strategy\_base.py and the strategies\<close>

text \<open>
  A row of the daily table of the simulator: \<^verbatim>\<open>ts_code\<close>, \<^verbatim>\<open>trade_date\<close> and the cells of
  the other columns by column name. A column is in the table when every row has a cell for it,
  so that a table without rows has every column. The index is the default
  \<^verbatim>\<open>RangeIndex\<close>.
\<close>

type_synonym daily_row = "(string, string, row) bar"

definition bar_cells :: "daily_row \<Rightarrow> row" where
  "bar_cells r = snd (snd r)"

text \<open>\<^verbatim>\<open>row.to_dict()\<close>.\<close>

definition to_dict :: "daily_row \<Rightarrow> row" where
  "to_dict r = (bar_cells r)(''ts_code'' \<mapsto> PyStr (bar_code r), ''trade_date'' \<mapsto> PyStr (bar_date r))"

definition has_column :: "daily_row list \<Rightarrow> string \<Rightarrow> bool" where
  "has_column dataframe column_name =
     (column_name = ''ts_code'' \<or> column_name = ''trade_date''
      \<or> list_all (\<lambda>r. bar_cells r column_name \<noteq> None) dataframe)"

definition ensure_columns :: "daily_row list \<Rightarrow> string list \<Rightarrow> py_error + unit" where
  "ensure_columns dataframe required_columns =
     (if list_all (has_column dataframe) required_columns then Inr () else Inl ValueError)"

text \<open>
  \<^verbatim>\<open>parse_trade_dates\<close>: every text is stripped and parsed, and one unparseable text raises
  \<^verbatim>\<open>ValueError\<close>. A parsed date is held as its \<^verbatim>\<open>%Y%m%d\<close> text, which orders as the
  timestamps do; the parameter \<open>to_yyyymmdd\<close> is \<^verbatim>\<open>pd.to_datetime(text, errors="coerce")\<close>
  followed by \<^verbatim>\<open>strftime("%Y%m%d")\<close>, with \<open>None\<close> for \<^verbatim>\<open>NaT\<close>.
\<close>

definition parse_trade_dates ::
  "(string \<Rightarrow> string option) \<Rightarrow> string list \<Rightarrow> py_error + string list" where
  "parse_trade_dates to_yyyymmdd trade_dates =
     (case those (map (\<lambda>d. to_yyyymmdd (strip d)) trade_dates) of
        None \<Rightarrow> Inl ValueError
      | Some parsed_dates \<Rightarrow> Inr parsed_dates)"

text \<open>
  \<^verbatim>\<open>normalize_bool_series\<close>: a boolean is kept, any other cell is true when its stripped,
  lower-cased text is one of \<^verbatim>\<open>1, true, t, yes, y\<close>.
\<close>

definition normalize_bool_series :: "pyval list \<Rightarrow> bool list" where
  "normalize_bool_series values = map coerce_bool values"

text \<open>
  \<^verbatim>\<open>next_trade_date_series\<close>: the table is sorted by
  \<^verbatim>\<open>["ts_code", "_trade_sort_key", "_original_order"]\<close>, every row gets the \<^verbatim>\<open>trade_date\<close> of
  the row after it in its \<^verbatim>\<open>ts_code\<close> group (\<^verbatim>\<open>shift(-1)\<close>, the last row gets a missing
  value, \<open>None\<close>), and the column is put back in the original order.
\<close>

definition shift_dates :: "(nat \<times> ('c, 'd, string) bar) list \<Rightarrow> (nat \<times> string option) list" where
  "shift_dates stock_daily =
     zip (map fst stock_daily) (map (\<lambda>(i, r). Some (snd (snd r))) (tl stock_daily) @ [None])"

definition next_trade_date_series ::
  "(string \<Rightarrow> string option) \<Rightarrow> daily_row list \<Rightarrow> py_error + string option list" where
  "next_trade_date_series to_yyyymmdd daily_df =
     (case ensure_columns daily_df [''ts_code'', ''trade_date''] of
        Inl e \<Rightarrow> Inl e
      | Inr _ \<Rightarrow>
          (case parse_trade_dates to_yyyymmdd (map bar_date daily_df) of
             Inl e \<Rightarrow> Inl e
           | Inr keys \<Rightarrow>
               (let ordered_daily =
                      sort_with_index (map2 (\<lambda>r k. (bar_code r, k, bar_date r)) daily_df keys);
                    next_trade_date =
                      map_of (concat (map (\<lambda>stock_code. shift_dates (stock_rows ordered_daily stock_code))
                                        (remdups (map (\<lambda>(i, r). bar_code r) ordered_daily))))
                in Inr (map (\<lambda>i. case next_trade_date i of None \<Rightarrow> None | Some d \<Rightarrow> d)
                          [0..<length daily_df]))))"

text \<open>
  A strategy object: the class attributes \<^verbatim>\<open>name\<close> and \<^verbatim>\<open>exit_price_type\<close>, the instance
  attribute \<^verbatim>\<open>fill_model\<close>, and the two methods of the abstract class \<^verbatim>\<open>Strategy\<close>. An
  attribute that the object does not have is \<open>None\<close>. A method reads the object, that is the
  value of its \<^verbatim>\<open>fill_model\<close> attribute at the time of the call, and the table; it returns a
  series, one cell for every row, or raises. The methods of the strategies of the package
  assign to no attribute. A cell of the exit series is the text of a date, or \<open>None\<close> for a
  missing value (\<^verbatim>\<open>None\<close>, \<^verbatim>\<open>pd.NA\<close> or NaN).
\<close>

record strategy =
  attr_name :: string
  attr_exit_price_type :: "string option"
  attr_fill_model :: "model_arg option"
  generate_entries :: "model_arg option \<Rightarrow> daily_row list \<Rightarrow> py_error + pyval list"
  generate_exits :: "model_arg option \<Rightarrow> daily_row list \<Rightarrow> py_error + string option list"

text \<open>The results of a list of calls, or the first error raised.\<close>

fun collect :: "(py_error + 'a) list \<Rightarrow> py_error + 'a list" where
  "collect [] = Inr []"
| "collect (x # xs) =
     (case x of
        Inl e \<Rightarrow> Inl e
      | Inr v \<Rightarrow> (case collect xs of Inl e \<Rightarrow> Inl e | Inr vs \<Rightarrow> Inr (v # vs)))"

text \<open>
  \<^verbatim>\<open>BuyFirstLimitUpSellNextCloseStrategy\<close>. \<^verbatim>\<open>generate_entries\<close>: a row is an entry when it
  is a limit-up day, \<^verbatim>\<open>streak_up\<close> is 1 and \<^verbatim>\<open>can_buy_limitup_day\<close> holds under
  \<^verbatim>\<open>self.fill_model\<close>. \<^verbatim>\<open>generate_exits\<close>: the next trade date of the instrument at the
  entries, a missing value elsewhere.
\<close>

definition first_limitup_entries ::
  "(string \<Rightarrow> rat option) \<Rightarrow> model_arg option \<Rightarrow> daily_row list \<Rightarrow> py_error + bool list" where
  "first_limitup_entries parse_num self_fill_model daily_df =
     (case ensure_columns daily_df [''label_limit_up'', ''streak_up'', ''label_sealed'', ''label_one_word''] of
        Inl e \<Rightarrow> Inl e
      | Inr _ \<Rightarrow>
          (let limit_up_flag =
                 normalize_bool_series (map (\<lambda>r. the (bar_cells r ''label_limit_up'')) daily_df);
               first_board_flag =
                 map (\<lambda>r. (case to_numeric parse_num (the (bar_cells r ''streak_up'')) of
                              None \<Rightarrow> 0 | Some x \<Rightarrow> x) = 1) daily_df
           in (case self_fill_model of
                 None \<Rightarrow> if daily_df = [] then Inr [] else Inl AttributeError
               | Some model \<Rightarrow>
                   (case collect (map (\<lambda>r. can_buy_limitup_day (to_dict r) model) daily_df) of
                      Inl e \<Rightarrow> Inl e
                    | Inr can_buy_flag \<Rightarrow>
                        Inr (map (\<lambda>(a, b, c). a \<and> b \<and> c)
                               (zip limit_up_flag (zip first_board_flag can_buy_flag)))))))"

definition first_limitup_exits ::
  "(string \<Rightarrow> rat option) \<Rightarrow> (string \<Rightarrow> string option) \<Rightarrow> model_arg option \<Rightarrow> daily_row list
     \<Rightarrow> py_error + string option list" where
  "first_limitup_exits parse_num to_yyyymmdd self_fill_model daily_df =
     (case first_limitup_entries parse_num self_fill_model daily_df of
        Inl e \<Rightarrow> Inl e
      | Inr entries \<Rightarrow>
          (case next_trade_date_series to_yyyymmdd daily_df of
             Inl e \<Rightarrow> Inl e
           | Inr next_dates \<Rightarrow>
               Inr (map2 (\<lambda>entry next_date. if entry then next_date else None) entries next_dates)))"

definition BuyFirstLimitUpSellNextCloseStrategy ::
  "(string \<Rightarrow> rat option) \<Rightarrow> (string \<Rightarrow> string option) \<Rightarrow> FillModel \<Rightarrow> strategy" where
  "BuyFirstLimitUpSellNextCloseStrategy parse_num to_yyyymmdd fill_model =
     \<lparr>attr_name = ''buy_first_limitup_sell_next_close'',
      attr_exit_price_type = Some ''next_close'',
      attr_fill_model = Some (ModelEnum fill_model),
      generate_entries =
        (\<lambda>self_fill_model daily_df.
           map_sum id (map PyBool) (first_limitup_entries parse_num self_fill_model daily_df)),
      generate_exits = first_limitup_exits parse_num to_yyyymmdd\<rparr>"

section \<open>backtest.py: the backtest simulator\<close>

text \<open>
  \<^verbatim>\<open>_normalize_fill_model\<close>: an enum member is returned as it is; a text goes through
  \<^verbatim>\<open>FillModel(str(fill_model).strip().upper())\<close>, which raises \<^verbatim>\<open>ValueError\<close> when it is not
  the value of a member.
\<close>

definition normalize_fill_model :: "model_arg \<Rightarrow> py_error + FillModel" where
  "normalize_fill_model fill_model =
     (case fill_model of
        ModelEnum m \<Rightarrow> Inr m
      | ModelStr s \<Rightarrow>
          (let text = upper (strip s) in
           if text = ''IDEAL'' then Inr IDEAL
           else if text = ''CONSERVATIVE'' then Inr CONSERVATIVE
           else Inl ValueError))"

text \<open>
  \<^verbatim>\<open>_normalize_trade_date\<close> on a cell of the exit series: a missing value, an empty text, the
  text \<^verbatim>\<open>nan\<close> and a text that does not parse give \<^verbatim>\<open>None\<close>.
\<close>

definition normalize_trade_date :: "(string \<Rightarrow> string option) \<Rightarrow> string option \<Rightarrow> string option" where
  "normalize_trade_date to_yyyymmdd v =
     (case v of
        None \<Rightarrow> None
      | Some s \<Rightarrow>
          (let text = strip s in
           if text = [] \<or> lower text = ''nan'' then None else to_yyyymmdd text))"

text \<open>
  \<^verbatim>\<open>_build_price_lookup\<close>: the rows sorted by \<^verbatim>\<open>["ts_code", "_trade_sort_key", "_row_order"]\<close>,
  the last row kept among those with the same \<^verbatim>\<open>ts_code\<close> and \<^verbatim>\<open>trade_date_norm\<close>, indexed
  by these two columns. The key holds \<^verbatim>\<open>ts_code\<close> as it is in the table.
\<close>

definition build_price_lookup ::
  "(string \<Rightarrow> string option) \<Rightarrow> daily_row list \<Rightarrow> py_error + (string \<times> string \<rightharpoonup> row)" where
  "build_price_lookup to_yyyymmdd daily_df =
     (case parse_trade_dates to_yyyymmdd (map bar_date daily_df) of
        Inl e \<Rightarrow> Inl e
      | Inr keys \<Rightarrow>
          (let with_sort_key =
                 sort_with_index (map2 (\<lambda>r k. (bar_code r, k, bar_cells r)) daily_df keys)
           in Inr (map_of (rev (map (\<lambda>(i, r). ((bar_code r, bar_date r), snd (snd r)))
                                  with_sort_key)))))"

text \<open>
  \<^verbatim>\<open>_generate_signals\<close>, with the strategy object threaded through: the second component is
  the object after the call. The \<^verbatim>\<open>finally\<close> clause runs on every path out of the
  \<^verbatim>\<open>try\<close> block.
\<close>

definition generate_signals ::
  "daily_row list \<Rightarrow> strategy \<Rightarrow> FillModel
     \<Rightarrow> (py_error + bool list \<times> string option list) \<times> strategy" where
  "generate_signals daily_df strategy fill_model =
     (let original_fill_model = attr_fill_model strategy;
          has_fill_model = (attr_fill_model strategy \<noteq> None);
          strategy1 =
            (if has_fill_model then strategy\<lparr>attr_fill_model := Some (ModelEnum fill_model)\<rparr>
             else strategy);
          signals =
            (case generate_entries strategy1 (attr_fill_model strategy1) daily_df of
               Inl e \<Rightarrow> Inl e
             | Inr entry_signal \<Rightarrow>
                 (case generate_exits strategy1 (attr_fill_model strategy1) daily_df of
                    Inl e \<Rightarrow> Inl e
                  | Inr exit_signal \<Rightarrow> Inr (entry_signal, exit_signal)));
          strategy2 =
            (if has_fill_model then strategy1\<lparr>attr_fill_model := original_fill_model\<rparr>
             else strategy1)
      in (case signals of
            Inl e \<Rightarrow> (Inl e, strategy2)
          | Inr (entry_signal, exit_signal) \<Rightarrow>
              if length entry_signal \<noteq> length daily_df then (Inl ValueError, strategy2)
              else if length exit_signal \<noteq> length daily_df then (Inl ValueError, strategy2)
              else (Inr (normalize_bool_series entry_signal, exit_signal), strategy2)))"

text \<open>
  \<^verbatim>\<open>float(value)\<close> on a cell of the price lookup; \<open>None\<close> is NaN. A text goes through the
  parameter \<open>parse_num\<close>, and a text it rejects raises \<^verbatim>\<open>ValueError\<close>.
\<close>

fun py_float :: "(string \<Rightarrow> rat option) \<Rightarrow> pyval \<Rightarrow> py_error + rat option" where
  "py_float parse_num (PyFloat x) = Inr (Some x)"
| "py_float parse_num PyNaN = Inr None"
| "py_float parse_num (PyInt i) = Inr (Some (fl (of_int i)))"
| "py_float parse_num (PyBool b) = Inr (Some (if b then 1 else 0))"
| "py_float parse_num (PyStr s) =
     (case parse_num s of None \<Rightarrow> Inl ValueError | Some x \<Rightarrow> Inr (Some x))"
| "py_float parse_num PyNone = Inl TypeError"

text \<open>
  The three price lines of the loop of \<^verbatim>\<open>run_backtest\<close>:
  \<^verbatim>\<open>entry_trade_price = entry_base_price * (1.0 + total_cost_bps / 10000.0)\<close>,
  \<^verbatim>\<open>exit_trade_price = exit_base_price * (1.0 - total_cost_bps / 10000.0)\<close> and
  \<^verbatim>\<open>net_return = exit_trade_price / entry_trade_price - 1.0\<close>. The division of Python floats
  raises \<^verbatim>\<open>ZeroDivisionError\<close> when the divisor is zero, also when the dividend is NaN.
\<close>

definition entry_trade_price :: "rat \<Rightarrow> rat \<Rightarrow> rat" where
  "entry_trade_price total_cost_bps entry_base_price =
     fmul entry_base_price (fadd 1 (fdiv total_cost_bps 10000))"

definition exit_trade_price :: "rat \<Rightarrow> rat option \<Rightarrow> rat option" where
  "exit_trade_price total_cost_bps exit_base_price =
     map_option (\<lambda>x. fmul x (fsub 1 (fdiv total_cost_bps 10000))) exit_base_price"

definition net_return :: "rat option \<Rightarrow> rat \<Rightarrow> py_error + rat option" where
  "net_return exit_price entry_price_value =
     (if entry_price_value = 0 then Inl ZeroDivisionError
      else Inr (map_option (\<lambda>x. fsub (fdiv x entry_price_value) 1) exit_price))"

text \<open>A row of the \<^verbatim>\<open>trades\<close> table; the fields are its columns.\<close>

record trade =
  trade_strategy_name :: string
  trade_fill_model :: FillModel
  trade_ts_code :: string
  trade_entry_date :: string
  trade_entry_price :: rat
  trade_exit_date :: string
  trade_exit_price :: "rat option"
  trade_ret_net :: "rat option"

text \<open>
  One pass through the body of the loop of \<^verbatim>\<open>run_backtest\<close>, for the row of an entry
  signal and its cell of the exit series. A pass ends with \<^verbatim>\<open>continue\<close>, with an
  exception, or by yielding a value. The first part of the body runs up to the line of
  \<^verbatim>\<open>exit_base_price\<close> and yields \<^verbatim>\<open>stock_code\<close>, \<^verbatim>\<open>exit_date\<close>, \<^verbatim>\<open>entry_base_price\<close>
  and \<^verbatim>\<open>exit_base_price\<close>; the costs are not read there.
\<close>

datatype 'a loop_step = Continue | Raise py_error | Yield 'a

definition base_prices ::
  "(string \<Rightarrow> rat option) \<Rightarrow> (string \<Rightarrow> string option) \<Rightarrow> strategy \<Rightarrow> FillModel
     \<Rightarrow> (string \<times> string \<rightharpoonup> row) \<Rightarrow> daily_row \<times> string option
     \<Rightarrow> (string \<times> string \<times> rat \<times> rat option) loop_step" where
  "base_prices parse_num to_yyyymmdd strategy normalized_fill_model price_lookup signal =
     (let entry_row = fst signal in
      case normalize_trade_date to_yyyymmdd (snd signal) of
        None \<Rightarrow> Continue
      | Some exit_date \<Rightarrow>
          (let stock_code = strip (bar_code entry_row) in
           case price_lookup (stock_code, exit_date) of
             None \<Rightarrow> Continue
           | Some exit_row \<Rightarrow>
               (case entry_price parse_num (to_dict entry_row) (ModelEnum normalized_fill_model) of
                  Inl e \<Rightarrow> Raise e
                | Inr entry_base_price \<Rightarrow>
                    (let exit_price_type =
                           (case attr_exit_price_type strategy of
                              None \<Rightarrow> ''next_close'' | Some t \<Rightarrow> t);
                         exit_price_column =
                           (if exit_price_type = ''next_open'' then ''open'' else ''close'')
                     in case exit_row exit_price_column of
                          None \<Rightarrow> Raise KeyError
                        | Some v \<Rightarrow>
                            (case py_float parse_num v of
                               Inl e \<Rightarrow> Raise e
                             | Inr exit_base_price \<Rightarrow>
                                 Yield (stock_code, exit_date, entry_base_price,
                                        exit_base_price))))))"

text \<open>The whole body: the price lines and the record appended to \<^verbatim>\<open>trade_records\<close>.\<close>

definition trade_for_row ::
  "(string \<Rightarrow> rat option) \<Rightarrow> (string \<Rightarrow> string option) \<Rightarrow> strategy \<Rightarrow> FillModel \<Rightarrow> rat
     \<Rightarrow> (string \<times> string \<rightharpoonup> row) \<Rightarrow> daily_row \<times> string option \<Rightarrow> trade loop_step" where
  "trade_for_row parse_num to_yyyymmdd strategy normalized_fill_model total_cost_bps price_lookup signal =
     (case base_prices parse_num to_yyyymmdd strategy normalized_fill_model price_lookup signal of
        Continue \<Rightarrow> Continue
      | Raise e \<Rightarrow> Raise e
      | Yield (stock_code, exit_date, entry_base_price, exit_base_price) \<Rightarrow>
          (let entry_value = entry_trade_price total_cost_bps entry_base_price;
               exit_value = exit_trade_price total_cost_bps exit_base_price
           in case net_return exit_value entry_value of
                Inl e \<Rightarrow> Raise e
              | Inr ret \<Rightarrow>
                  Yield
                    \<lparr>trade_strategy_name = attr_name strategy,
                     trade_fill_model = normalized_fill_model,
                     trade_ts_code = stock_code,
                     trade_entry_date = bar_date (fst signal),
                     trade_entry_price = entry_value,
                     trade_exit_date = exit_date,
                     trade_exit_price = exit_value,
                     trade_ret_net = ret\<rparr>))"

text \<open>The loop: the records yielded, in the order of the signals, or the first exception.\<close>

fun simulate :: "('s \<Rightarrow> 'a loop_step) \<Rightarrow> 's list \<Rightarrow> py_error + 'a list" where
  "simulate body [] = Inr []"
| "simulate body (signal # signals) =
     (case body signal of
        Continue \<Rightarrow> simulate body signals
      | Raise e \<Rightarrow> Inl e
      | Yield record \<Rightarrow>
          (case simulate body signals of
             Inl e \<Rightarrow> Inl e
           | Inr trade_records \<Rightarrow> Inr (record # trade_records)))"

text \<open>
  \<^verbatim>\<open>_build_equity_curve\<close>: the equity starts at 1.0 and, on every trade date in increasing
  order, is multiplied by \<^verbatim>\<open>1.0 + ret_net\<close> for every trade that exits on that date, in the
  order of the trades table. \<open>None\<close> is NaN.
\<close>

definition compound :: "rat option \<Rightarrow> rat option \<Rightarrow> rat option" where
  "compound equity day_return =
     (case (equity, day_return) of
        (Some e, Some r) \<Rightarrow> Some (fmul e (fadd 1 r))
      | _ \<Rightarrow> None)"

fun equity_rows :: "trade list \<Rightarrow> rat option \<Rightarrow> string list \<Rightarrow> (string \<times> rat option) list" where
  "equity_rows trade_table equity [] = []"
| "equity_rows trade_table equity (trade_date # trade_dates) =
     (let day_returns =
            map trade_ret_net (filter (\<lambda>t. trade_exit_date t = trade_date) trade_table);
          equity_after = foldl compound equity day_returns
      in (trade_date, equity_after) # equity_rows trade_table equity_after trade_dates)"

definition build_equity_curve ::
  "(string \<Rightarrow> string option) \<Rightarrow> daily_row list \<Rightarrow> trade list
     \<Rightarrow> py_error + (string \<times> rat option) list" where
  "build_equity_curve to_yyyymmdd daily_df trade_table =
     (case parse_trade_dates to_yyyymmdd (map bar_date daily_df) of
        Inl e \<Rightarrow> Inl e
      | Inr keys \<Rightarrow> Inr (equity_rows trade_table (Some 1) (sort (remdups keys))))"

record BacktestResult =
  trades :: "trade list"
  equity_curve :: "(string \<times> rat option) list"

text \<open>
  \<^verbatim>\<open>run_backtest\<close>. The result comes with the strategy object as the call leaves it.
\<close>

definition entry_signals :: "daily_row list \<Rightarrow> bool list \<Rightarrow> string option list
     \<Rightarrow> (daily_row \<times> string option) list" where
  "entry_signals working_daily entry_signal exit_signal =
     map snd (filter fst (zip entry_signal (zip working_daily exit_signal)))"

definition run_backtest ::
  "(string \<Rightarrow> rat option) \<Rightarrow> (string \<Rightarrow> string option) \<Rightarrow> daily_row list \<Rightarrow> strategy
     \<Rightarrow> model_arg \<Rightarrow> rat \<Rightarrow> rat \<Rightarrow> (py_error + BacktestResult) \<times> strategy" where
  "run_backtest parse_num to_yyyymmdd daily_df strategy fill_model fee_bps slippage_bps =
     (case ensure_columns daily_df [''ts_code'', ''trade_date'', ''open'', ''close''] of
        Inl e \<Rightarrow> (Inl e, strategy)
      | Inr _ \<Rightarrow>
     (case normalize_fill_model fill_model of
        Inl e \<Rightarrow> (Inl e, strategy)
      | Inr normalized_fill_model \<Rightarrow>
     (case parse_trade_dates to_yyyymmdd (map bar_date daily_df) of
        Inl e \<Rightarrow> (Inl e, strategy)
      | Inr normalized_dates \<Rightarrow>
     (let working_daily = map2 (\<lambda>r d. (bar_code r, d, bar_cells r)) daily_df normalized_dates in
      case generate_signals working_daily strategy normalized_fill_model of
        (Inl e, strategy_after) \<Rightarrow> (Inl e, strategy_after)
      | (Inr (entry_signal, exit_signal), strategy_after) \<Rightarrow>
     (case build_price_lookup to_yyyymmdd working_daily of
        Inl e \<Rightarrow> (Inl e, strategy_after)
      | Inr price_lookup \<Rightarrow>
     (let total_cost_bps = fadd fee_bps slippage_bps in
      case simulate (trade_for_row parse_num to_yyyymmdd strategy_after normalized_fill_model
                       total_cost_bps price_lookup)
             (entry_signals working_daily entry_signal exit_signal) of
        Inl e \<Rightarrow> (Inl e, strategy_after)
      | Inr trade_records \<Rightarrow>
     (let trade_table = sort_key (\<lambda>t. (trade_entry_date t, trade_ts_code t)) trade_records in
      case build_equity_curve to_yyyymmdd working_daily trade_table of
        Inl e \<Rightarrow> (Inl e, strategy_after)
      | Inr curve \<Rightarrow>
          (Inr \<lparr>trades = trade_table, equity_curve = curve\<rparr>, strategy_after))))))))"

text \<open>
  The table of the end-to-end test of the repository: one instrument, a limit-up day of a
  first board that closes at 11.00 and the next day, which closes at 11.50.
\<close>

definition backtest_table :: "daily_row list" where
  "backtest_table =
     [(''AAA'', ''20240102'',
       [''open'' \<mapsto> PyFloat (fl (1080 / 100)), ''close'' \<mapsto> PyFloat 11,
        ''label_limit_up'' \<mapsto> PyBool True, ''streak_up'' \<mapsto> PyInt 1,
        ''label_one_word'' \<mapsto> PyBool False, ''label_sealed'' \<mapsto> PyBool False]),
      (''AAA'', ''20240103'',
       [''open'' \<mapsto> PyFloat (fl (1120 / 100)), ''close'' \<mapsto> PyFloat (fl (1150 / 100)),
        ''label_limit_up'' \<mapsto> PyBool False, ''streak_up'' \<mapsto> PyInt 0,
        ''label_one_word'' \<mapsto> PyBool False, ''label_sealed'' \<mapsto> PyBool False])]"

text \<open>
  The table of the fill-model test of the repository: the limit-up day is a one-word board
  that stays sealed.
\<close>

definition sealed_day_table :: "daily_row list" where
  "sealed_day_table =
     [(''AAA'', ''20240102'',
       [''open'' \<mapsto> PyFloat (fl (1090 / 100)), ''close'' \<mapsto> PyFloat 11,
        ''label_limit_up'' \<mapsto> PyBool True, ''streak_up'' \<mapsto> PyInt 1,
        ''label_one_word'' \<mapsto> PyBool True, ''label_sealed'' \<mapsto> PyBool True]),
      (''AAA'', ''20240103'',
       [''open'' \<mapsto> PyFloat (fl (1120 / 100)), ''close'' \<mapsto> PyFloat (fl (1140 / 100)),
        ''label_limit_up'' \<mapsto> PyBool False, ''streak_up'' \<mapsto> PyInt 0,
        ''label_one_word'' \<mapsto> PyBool False, ''label_sealed'' \<mapsto> PyBool False])]"

chapter \<open>Verification\<close>

section \<open>Fill models\<close>

lemma normalize_model_enum [simp]: "normalize_model (ModelEnum m) = Inr m"
  by (simp add: normalize_model_def)






section \<open>Labels\<close>

lemma add_limit_prices_Inr:
  assumes "add_limit_prices lp r = Inr out"
  shows "\<exists>code pc p. r ''ts_code'' = Some code \<and> r ''pre_close'' = Some pc
           \<and> lp code pc = Inr p \<and> out = r(''limit_up_price'' \<mapsto> float_cell p)"
  using assms by (auto simp: add_limit_prices_def split: option.splits sum.splits)

lemma to_numeric_float_cell [simp]: "to_numeric parse_num (float_cell p) = p"
  by (cases p) (simp_all add: float_cell_def)

lemma label_limit_up_Inr:
  assumes "label_limit_up parse_num lp ap eps r = Inr out"
  shows "\<exists>code pc td p a.
           r ''ts_code'' = Some code \<and> r ''pre_close'' = Some pc \<and> r ''trade_date'' = Some td
         \<and> lp code pc = Inr p \<and> ap code td = Inr a
         \<and> out = r(''limit_up_price'' \<mapsto> float_cell p,
                    ''price_limit_applicable'' \<mapsto> PyBool a,
                    ''label_limit_up'' \<mapsto> PyBool (limit_up_value parse_num eps r p a))"
proof -
  from assms obtain o1 where o1: "add_limit_prices lp r = Inr o1"
    by (auto simp: label_limit_up_def split: if_splits sum.splits)
  from add_limit_prices_Inr [OF o1] obtain code pc p where
    c: "r ''ts_code'' = Some code" "r ''pre_close'' = Some pc" "lp code pc = Inr p"
    and o1_eq: "o1 = r(''limit_up_price'' \<mapsto> float_cell p)"
    by blast
  have k: "o1 ''ts_code'' = r ''ts_code''" "o1 ''trade_date'' = r ''trade_date''"
    by (simp_all add: o1_eq)
  from assms o1 k c obtain td a where
    t: "r ''trade_date'' = Some td" "ap code td = Inr a"
    and out_eq: "out = o1(''price_limit_applicable'' \<mapsto> PyBool a,
                    ''label_limit_up'' \<mapsto>
                       PyBool (a \<and> is_close_to_limit parse_num o1 ''close'' eps
                                 \<and> is_close_to_limit parse_num o1 ''high'' eps))"
    by (auto simp: label_limit_up_def Let_def split: if_splits sum.splits option.splits)
  have "is_close_to_limit parse_num o1 ''close'' eps = isclose (num_cell parse_num r ''close'') p eps"
       "is_close_to_limit parse_num o1 ''high'' eps = isclose (num_cell parse_num r ''high'') p eps"
    by (simp_all add: is_close_to_limit_def num_cell_def o1_eq)
  with out_eq have "out = r(''limit_up_price'' \<mapsto> float_cell p,
                    ''price_limit_applicable'' \<mapsto> PyBool a,
                    ''label_limit_up'' \<mapsto> PyBool (limit_up_value parse_num eps r p a))"
    by (simp add: o1_eq limit_up_value_def)
  with c t show ?thesis by blast
qed


lemma limit_up_value_upd [simp]:
  "k \<noteq> ''close'' \<Longrightarrow> k \<noteq> ''high'' \<Longrightarrow>
   limit_up_value parse_num eps (r(k \<mapsto> v)) p a = limit_up_value parse_num eps r p a"
  by (simp add: limit_up_value_def num_cell_def)

lemma label_pipeline_cells:
  assumes "label_pipeline parse_num lp ap r = Inr out"
  shows "\<exists>lu ow op.
           out ''label_limit_up'' = Some (PyBool lu)
         \<and> out ''label_one_word'' = Some (PyBool (lu \<and> ow))
         \<and> out ''label_opened'' = Some (PyBool op)
         \<and> out ''label_sealed'' = Some (PyBool (lu \<and> \<not> op))"
proof -
  let ?eps = DEFAULT_EPS
  from assms obtain w where w: "label_one_word parse_num lp ap ?eps r = Inr w"
    and s: "label_sealed parse_num lp ap ?eps w = Inr out"
    by (auto simp: label_pipeline_def split: sum.splits)
  from w obtain o1 where o1: "label_limit_up parse_num lp ap ?eps r = Inr o1"
    and w_eq: "\<exists>ow. w = o1(''label_one_word'' \<mapsto> PyBool (bool_cell o1 ''label_limit_up'' \<and> ow))"
    by (auto simp: label_one_word_def Let_def split: if_splits sum.splits)
  from label_limit_up_Inr [OF o1] obtain code pc td p a where
    c: "r ''ts_code'' = Some code" "r ''pre_close'' = Some pc" "r ''trade_date'' = Some td"
       "lp code pc = Inr p" "ap code td = Inr a"
    and o1_eq: "o1 = r(''limit_up_price'' \<mapsto> float_cell p,
                    ''price_limit_applicable'' \<mapsto> PyBool a,
                    ''label_limit_up'' \<mapsto> PyBool (limit_up_value parse_num ?eps r p a))"
    by blast
  let ?lu = "limit_up_value parse_num ?eps r p a"
  from w_eq obtain ow where w_eq': "w = o1(''label_one_word'' \<mapsto> PyBool (?lu \<and> ow))"
    by (auto simp: o1_eq bool_cell_def)
  from s obtain o3 where o3: "label_opened parse_num lp ap ?eps w = Inr o3"
    and out_eq: "out = o3(''label_sealed'' \<mapsto>
                   PyBool (bool_cell o3 ''label_limit_up'' \<and> \<not> bool_cell o3 ''label_opened''))"
    by (auto simp: label_sealed_def split: sum.splits)
  from o3 obtain o2 where o2: "label_limit_up parse_num lp ap ?eps w = Inr o2"
    and o3_eq: "\<exists>op. o3 = o2(''label_opened'' \<mapsto> PyBool op)"
    by (auto simp: label_opened_def Let_def split: if_splits sum.splits)
  have wk: "w ''ts_code'' = Some code" "w ''pre_close'' = Some pc" "w ''trade_date'' = Some td"
    by (simp_all add: w_eq' o1_eq c)
  from label_limit_up_Inr [OF o2] wk c
  have o2_eq: "o2 = w(''limit_up_price'' \<mapsto> float_cell p,
                    ''price_limit_applicable'' \<mapsto> PyBool a,
                    ''label_limit_up'' \<mapsto> PyBool (limit_up_value parse_num ?eps w p a))"
    by auto
  have lu_w: "limit_up_value parse_num ?eps w p a = ?lu"
    by (simp add: w_eq' o1_eq)
  from o3_eq obtain op where o3_eq': "o3 = o2(''label_opened'' \<mapsto> PyBool op)"
    by blast
  have "out ''label_limit_up'' = Some (PyBool ?lu)"
    by (simp add: out_eq o3_eq' o2_eq lu_w)
  moreover have "out ''label_one_word'' = Some (PyBool (?lu \<and> ow))"
    by (simp add: out_eq o3_eq' o2_eq w_eq')
  moreover have "out ''label_opened'' = Some (PyBool op)"
    by (simp add: out_eq o3_eq')
  moreover have "out ''label_sealed'' = Some (PyBool (?lu \<and> \<not> op))"
    by (simp add: out_eq o3_eq' o2_eq lu_w bool_cell_def)
  ultimately show ?thesis by blast
qed

text \<open>
  Claim C2. On every bar the labelling pipeline processes, a one-word label implies the
  limit-up label; a limit-up bar is never both opened and sealed; and on a limit-up bar
  exactly one of sealed and opened holds.
\<close>

theorem label_invariants:
  assumes "label_pipeline parse_num lp ap r = Inr out"
  shows "(bool_cell out ''label_one_word'' \<longrightarrow> bool_cell out ''label_limit_up'')
       \<and> (bool_cell out ''label_limit_up''
            \<longrightarrow> \<not> (bool_cell out ''label_opened'' \<and> bool_cell out ''label_sealed''))
       \<and> (bool_cell out ''label_limit_up''
            \<longrightarrow> (bool_cell out ''label_sealed'' \<noteq> bool_cell out ''label_opened''))"
  using label_pipeline_cells [OF assms] by (auto simp: bool_cell_def)


theorem label_invariants_witness:
  "(case label_pipeline (\<lambda>s. None) (\<lambda>code pc. Inr (Some 11)) (\<lambda>code td. Inr True) one_word_bar of
      Inl e \<Rightarrow> False
    | Inr out \<Rightarrow> bool_cell out ''label_one_word'' \<and> bool_cell out ''label_limit_up''
                 \<and> bool_cell out ''label_sealed'' \<and> \<not> bool_cell out ''label_opened'')"
proof -
  let ?run = "label_pipeline (\<lambda>s. None) (\<lambda>code pc. Inr (Some 11)) (\<lambda>code td. Inr True) one_word_bar"
  have ev: "(case ?run of Inl e \<Rightarrow> False
             | Inr out \<Rightarrow> bool_cell out ''label_one_word'' \<and> \<not> bool_cell out ''label_opened'')"
    by code_simp
  then obtain out where out: "?run = Inr out" and ow: "bool_cell out ''label_one_word''"
    and op: "\<not> bool_cell out ''label_opened''"
    by (auto split: sum.splits)
  from label_invariants [OF out] ow
  have "bool_cell out ''label_limit_up''"
       "bool_cell out ''label_sealed'' \<noteq> bool_cell out ''label_opened''"
       "\<not> (bool_cell out ''label_opened'' \<and> bool_cell out ''label_sealed'')"
    by simp_all
  with ow op out show ?thesis by auto
qed


section \<open>The limit price\<close>

declare ndigits.simps [simp del]

lemma ndigits_bounds:
  "0 < n \<Longrightarrow> 10 ^ (ndigits n - 1) \<le> n \<and> n < 10 ^ ndigits n"
proof (induction n rule: ndigits.induct)
  case (1 n)
  show ?case
  proof (cases "n < 10")
    case True
    with 1(2) show ?thesis by (simp add: ndigits.simps [of n])
  next
    case False
    then have pos: "0 < n div 10" by simp
    from 1(1) [OF False pos] have ih: "10 ^ (ndigits (n div 10) - 1) \<le> n div 10"
      "n div 10 < 10 ^ ndigits (n div 10)" by simp_all
    have nd: "ndigits n = Suc (ndigits (n div 10))"
      using False by (simp add: ndigits.simps [of n])
    have pos': "0 < ndigits (n div 10)"
      by (simp add: ndigits.simps [of "n div 10"])
    have "10 ^ (ndigits n - 1) = (10::int) ^ ndigits (n div 10)" by (simp add: nd)
    also have "\<dots> = 10 * 10 ^ (ndigits (n div 10) - 1)"
      using pos' by (cases "ndigits (n div 10)") simp_all
    also have "\<dots> \<le> 10 * (n div 10)" using ih(1) by simp
    also have "\<dots> \<le> n" by simp
    finally have lo: "10 ^ (ndigits n - 1) \<le> n" .
    have "n < 10 * (n div 10 + 1)" by simp
    also have "\<dots> \<le> 10 * 10 ^ ndigits (n div 10)" using ih(2) by simp
    finally have "n < 10 ^ ndigits n" by (simp add: nd)
    with lo show ?thesis by simp
  qed
qed

lemma ndigits_le:
  assumes "n < 10 ^ m" "0 < m"
  shows "ndigits n \<le> m"
proof (cases "0 < n")
  case True
  from ndigits_bounds [OF True] have "(10::int) ^ (ndigits n - 1) \<le> n" by simp
  with assms(1) have "(10::int) ^ (ndigits n - 1) < 10 ^ m" by linarith
  then have "ndigits n - 1 < m" by (rule power_less_imp_less_exp [rotated]) simp
  then show ?thesis by simp
next
  case False
  then have "ndigits n = 1" by (simp add: ndigits.simps [of n])
  with assms show ?thesis by simp
qed

lemma dec_fix_fits: "fits_context d \<Longrightarrow> dec_fix d = d"
  by (simp add: fits_context_def dec_fix_def Let_def)

lemma dec_value_add_exact: "dec_value (add_exact a b) = dec_value a + dec_value b"
proof -
  define e where "e = min (exponent a) (exponent b)"
  have ea: "(10::rat) ^ nat (exponent a - e) * power_int 10 e = power_int 10 (exponent a)"
    using power_int_add [of "10::rat" "exponent a - e" e] by (simp add: e_def power_int_def [of _ "exponent a - min (exponent a) (exponent b)"])
  have eb: "(10::rat) ^ nat (exponent b - e) * power_int 10 e = power_int 10 (exponent b)"
    using power_int_add [of "10::rat" "exponent b - e" e] by (simp add: e_def power_int_def [of _ "exponent b - min (exponent a) (exponent b)"])
  have "dec_value (add_exact a b)
      = of_int (coefficient a) * (10 ^ nat (exponent a - e) * power_int 10 e)
      + of_int (coefficient b) * (10 ^ nat (exponent b - e) * power_int 10 e)"
    by (simp add: dec_value_def add_exact_def Let_def e_def algebra_simps)
  then show ?thesis by (simp add: ea eb dec_value_def)
qed

lemma dec_value_mul_exact: "dec_value (mul_exact a b) = dec_value a * dec_value b"
  by (simp add: dec_value_def mul_exact_def power_int_add)


lemma floor_half_up:
  fixes a b :: int
  assumes "0 \<le> a" "0 < b"
  shows "\<lfloor>(of_int a :: rat) / of_int b + 1 / 2\<rfloor>
           = a div b + (if b \<le> 2 * (a mod b) then 1 else 0)"
proof -
  have "(of_int a :: rat) / of_int b + 1 / 2 = of_int (2 * a + b) / of_int (2 * b)"
    using assms by (simp add: field_simps)
  then have "\<lfloor>(of_int a :: rat) / of_int b + 1 / 2\<rfloor> = (2 * a + b) div (2 * b)"
    by (simp only: floor_divide_of_int_eq)
  also have "\<dots> = a div b + (if b \<le> 2 * (a mod b) then 1 else 0)"
  proof -
    define q r where "q = a div b" and "r = a mod b"
    have a_eq: "a = q * b + r" by (simp add: q_def r_def)
    have r: "0 \<le> r" "r < b" using assms by (simp_all add: r_def)
    have "2 * a + b = 2 * (q * b + r) + b"
      using a_eq by (rule arg_cong [where f = "\<lambda>x. 2 * x + b"])
    also have "\<dots> = q * (2 * b) + (2 * r + b)" by (simp add: algebra_simps)
    finally have eq: "2 * a + b = q * (2 * b) + (2 * r + b)" .
    show ?thesis
    proof (cases "b \<le> 2 * r")
      case True
      have "q * (2 * b) + (2 * r + b) = (q + 1) * (2 * b) + (2 * r - b)"
        by (simp add: algebra_simps)
      with eq have eq': "2 * a + b = (q + 1) * (2 * b) + (2 * r - b)" by simp
      have small: "0 \<le> 2 * r - b" "2 * r - b < 2 * b" using True r by simp_all
      have "((q + 1) * (2 * b) + (2 * r - b)) div (2 * b) = (q + 1) + (2 * r - b) div (2 * b)"
        using assms(2) by (subst div_mult_self3) simp_all
      also have "(2 * r - b) div (2 * b) = 0"
        using small by (simp add: div_pos_pos_trivial)
      finally have "(2 * a + b) div (2 * b) = q + 1" by (simp add: eq')
      with True show ?thesis by (simp add: q_def r_def)
    next
      case False
      have small: "0 \<le> 2 * r + b" "2 * r + b < 2 * b" using False r by simp_all
      have "(q * (2 * b) + (2 * r + b)) div (2 * b) = q + (2 * r + b) div (2 * b)"
        using assms(2) by (subst div_mult_self3) simp_all
      also have "(2 * r + b) div (2 * b) = 0"
        using small by (simp add: div_pos_pos_trivial)
      finally have "(2 * a + b) div (2 * b) = q" by (simp add: eq)
      with False show ?thesis by (simp add: q_def r_def)
    qed
  qed
  finally show ?thesis .
qed


lemma drop_digits_half_up_floor:
  "drop_digits ROUND_HALF_UP c k
     = (if c < 0 then - 1 else 1) * \<lfloor>(of_int \<bar>c\<bar> :: rat) / of_int (10 ^ k) + 1 / 2\<rfloor>"
proof -
  have "\<lfloor>(of_int \<bar>c\<bar> :: rat) / of_int (10 ^ k) + 1 / 2\<rfloor>
          = \<bar>c\<bar> div 10 ^ k + (if 10 ^ k \<le> 2 * (\<bar>c\<bar> mod 10 ^ k) then 1 else 0)"
    by (rule floor_half_up) simp_all
  moreover have "\<not> (10::int) ^ k \<le> 0"
    by (simp add: not_le)
  ultimately show ?thesis
    by (cases "c = 0") (auto simp: drop_digits_def Let_def sgn_if)
qed

lemma cents_scale:
  "\<bar>dec_value d\<bar> * 100 = of_int \<bar>coefficient d\<bar> * power_int 10 (exponent d + 2)"
  using power_int_add [of "10::rat" "exponent d" 2]
  by (simp add: dec_value_def abs_mult)

lemma dec_value_neg_iff: "dec_value d < 0 \<longleftrightarrow> coefficient d < 0"
proof -
  have "0 < power_int (10::rat) (exponent d)"
    by (rule zero_less_power_int) simp
  moreover from this have "\<not> power_int (10::rat) (exponent d) < 0"
    by (simp add: not_less less_imp_le)
  ultimately show ?thesis
    by (simp add: dec_value_def mult_less_0_iff)
qed

lemma rescale_cents:
  "rescale d (- 2) ROUND_HALF_UP = Decimal (round_half_up_cents (dec_value d)) (- 2)"
proof (cases "- 2 \<le> exponent d")
  case True
  then have "power_int (10::rat) (exponent d + 2) = of_int (10 ^ nat (exponent d + 2))"
    by (simp add: power_int_def)
  then have "\<bar>dec_value d\<bar> * 100 = of_int (\<bar>coefficient d\<bar> * 10 ^ nat (exponent d + 2))"
    by (simp add: cents_scale)
  then have "\<lfloor>\<bar>dec_value d\<bar> * 100 + 1 / 2\<rfloor> = \<bar>coefficient d\<bar> * 10 ^ nat (exponent d + 2)"
    by (simp only: floor_add_int [symmetric] floor_of_int) linarith
  then show ?thesis
    using True by (simp add: rescale_def round_half_up_cents_def dec_value_neg_iff)
next
  case False
  then have "nat (- (exponent d + 2)) = nat (- 2 - exponent d)"
    by simp
  with False have "power_int (10::rat) (exponent d + 2) = 1 / of_int (10 ^ nat (- 2 - exponent d))"
    by (simp add: power_int_def power_inverse inverse_eq_divide power_one_over)
  then have "\<bar>dec_value d\<bar> * 100
               = of_int \<bar>coefficient d\<bar> / of_int (10 ^ nat (- 2 - exponent d))"
    by (simp add: cents_scale)
  then show ?thesis
    using False
    by (simp add: rescale_def round_half_up_cents_def dec_value_neg_iff
          drop_digits_half_up_floor)
qed


lemma quantize_cents:
  assumes "\<bar>dec_value d\<bar> < 10 ^ 25"
  shows "quantize d (- 2) ROUND_HALF_UP = Inr (Decimal (round_half_up_cents (dec_value d)) (- 2))"
proof (cases "coefficient d = 0")
  case True
  have "\<lfloor>1 / 2 :: rat\<rfloor> = 0"
    by (rule floor_unique) simp_all
  with True show ?thesis
    by (simp add: quantize_def dec_value_def round_half_up_cents_def)
next
  case False
  define n where "n = ndigits \<bar>coefficient d\<bar>"
  define x where "x = dec_value d"
  have pw: "0 < power_int (10::rat) (exponent d)"
    by (rule zero_less_power_int) simp
  have npos: "0 < n"
    by (simp add: n_def ndigits.simps [of "\<bar>coefficient d\<bar>"])
  from False have "(10::int) ^ (n - 1) \<le> \<bar>coefficient d\<bar>"
    using ndigits_bounds [of "\<bar>coefficient d\<bar>"] by (simp add: n_def)
  then have "(of_int (10 ^ (n - 1)) :: rat) \<le> of_int \<bar>coefficient d\<bar>"
    by (simp only: of_int_le_iff)
  then have "power_int (10::rat) (int (n - 1)) * power_int 10 (exponent d)
               \<le> of_int \<bar>coefficient d\<bar> * power_int 10 (exponent d)"
    using pw by (simp add: mult_right_mono)
  also have "\<dots> = \<bar>x\<bar>"
    using pw by (simp add: x_def dec_value_def abs_mult)
  also have "\<dots> < power_int 10 25"
    using assms by (simp add: x_def)
  finally have "power_int (10::rat) (int (n - 1) + exponent d) < power_int 10 25"
    by (simp add: power_int_add)
  then have "int (n - 1) + exponent d < 25"
    by (rule power_int_le_imp_less_exp [rotated]) simp_all
  with npos have condA: "\<not> int context_prec < int n + exponent d - (- 2)"
    by (simp add: context_prec_def)
  define f where "f = \<lfloor>\<bar>x\<bar> * 100 + 1 / 2\<rfloor>"
  have "\<bar>x\<bar> * 100 + 1 / 2 < of_int (10 ^ 27 + 1)"
    using assms by (simp add: x_def)
  then have f_hi: "f < 10 ^ 27 + 1"
    by (simp only: f_def floor_less_iff)
  have f_lo: "0 \<le> f"
    by (simp add: f_def)
  have "round_half_up_cents x = (if x < 0 then - 1 else 1) * f"
    by (simp only: round_half_up_cents_def f_def)
  with f_lo have "\<bar>round_half_up_cents x\<bar> = f"
    by (simp add: abs_mult)
  with f_hi have "\<bar>round_half_up_cents x\<bar> < 10 ^ 28"
    by simp
  then have "ndigits \<bar>round_half_up_cents x\<bar> \<le> 28"
    by (rule ndigits_le) simp
  then have condB: "\<not> context_prec < ndigits \<bar>coefficient (rescale d (- 2) ROUND_HALF_UP)\<bar>"
    by (simp add: rescale_cents x_def context_prec_def)
  show ?thesis
    using False condA condB
    by (simp add: quantize_def Let_def n_def rescale_cents)
qed

text \<open>
  Claim C7, amended. When \<open>1 + limit_up_fraction\<close> and its product with the previous close
  both fit the 28 digits of the decimal context, and the product is below \<open>10\<^sup>2\<^sup>5\<close> in
  magnitude, the limit price is the exact product rounded half-up to two decimals. In
  particular a previous close of 10 with the fraction 0.10 gives 11.00.
\<close>

theorem compute_limit_price_exact:
  assumes "fits_context (add_exact (Decimal 1 0) up)"
    and "fits_context (mul_exact pre_close (add_exact (Decimal 1 0) up))"
    and "\<bar>dec_value pre_close * (1 + dec_value up)\<bar> < 10 ^ 25"
  shows "compute_limit_price pre_close up
           = Inr (Decimal (round_half_up_cents (dec_value pre_close * (1 + dec_value up))) (- 2))"
proof -
  have one: "dec_value (Decimal 1 0) = 1"
    by (simp add: dec_value_def)
  have m: "dec_add (Decimal 1 0) up = add_exact (Decimal 1 0) up"
    using assms(1) by (simp add: dec_add_def dec_fix_fits)
  have p: "dec_mul pre_close (add_exact (Decimal 1 0) up)
             = mul_exact pre_close (add_exact (Decimal 1 0) up)"
    using assms(2) by (simp add: dec_mul_def dec_fix_fits)
  have v: "dec_value (mul_exact pre_close (add_exact (Decimal 1 0) up))
             = dec_value pre_close * (1 + dec_value up)"
    by (simp add: dec_value_mul_exact dec_value_add_exact one)
  show ?thesis
    using quantize_cents [of "mul_exact pre_close (add_exact (Decimal 1 0) up)"] assms(3)
    by (simp add: compute_limit_price_def Let_def m p v)
qed

theorem compute_limit_price_exact_witness:
  "compute_limit_price (Decimal 10 0) (Decimal 10 (- 2)) = Inr (Decimal 1100 (- 2))"
proof -
  have a: "fits_context (add_exact (Decimal 1 0) (Decimal 10 (- 2)))"
    by code_simp
  have b: "fits_context (mul_exact (Decimal 10 0) (add_exact (Decimal 1 0) (Decimal 10 (- 2))))"
    by code_simp
  have c: "\<bar>dec_value (Decimal 10 0) * (1 + dec_value (Decimal 10 (- 2)))\<bar> < 10 ^ 25"
    by code_simp
  have d: "round_half_up_cents (dec_value (Decimal 10 0) * (1 + dec_value (Decimal 10 (- 2)))) = 1100"
    by code_simp
  from compute_limit_price_exact [OF a b c] d show ?thesis by simp
qed

text \<open>
  Claim C7, as stated, fails on a product of more than 28 digits: the context rounds
  \<open>0.0049999999999999999999999999999\<close> (29 digits) to \<open>0.005\<close> before \<^verbatim>\<open>quantize\<close> sees it,
  and the limit price is 0.01 where the exact product rounds to 0.00.
\<close>

theorem compute_limit_price_counterexample:
  "compute_limit_price (Decimal 49999999999999999999999999999 (- 31)) (Decimal 0 0)
     = Inr (Decimal 1 (- 2))
 \<and> round_half_up_cents
      (dec_value (Decimal 49999999999999999999999999999 (- 31)) * (1 + dec_value (Decimal 0 0))) = 0"
  by code_simp



section \<open>The streak tracker\<close>


lemma length_cur_list [simp]: "length (cur_list pos st rows) = length rows"
  by (induction pos st rows rule: cur_list.induct) (simp_all add: Let_def)

lemma length_scan_stock [simp]: "length (scan_stock pos st rows col) = length col"
  by (induction pos st rows col rule: scan_stock.induct) (simp_all add: Let_def)

lemma scan_stock_other:
  "j \<notin> fst ` set rows \<Longrightarrow> scan_stock pos st rows col ! j = col ! j"
  by (induction pos st rows col rule: scan_stock.induct) (auto simp: Let_def)

lemma scan_stock_nth:
  "distinct (map fst rows) \<Longrightarrow> k < length rows \<Longrightarrow> fst (rows ! k) < length col
     \<Longrightarrow> scan_stock pos st rows col ! fst (rows ! k) = cur_list pos st rows ! k"
proof (induction pos st rows col arbitrary: k rule: scan_stock.induct)
  case (1 pos st col)
  then show ?case by simp
next
  case (2 pos ps pl pp i r rest col)
  show ?case
  proof (cases k)
    case 0
    from 2(2) have "i \<notin> fst ` set rest" by auto
    with 0 2(4) show ?thesis
      by (simp add: Let_def scan_stock_other)
  next
    case (Suc k')
    with 2 show ?thesis
      by (simp add: Let_def)
  qed
qed

lemma cur_list_0:
  "rows \<noteq> [] \<Longrightarrow>
   cur_list pos (ps, False, pp) rows ! 0 = (if bar_flag (snd (rows ! 0)) then 1 else 0)"
  by (cases rows) (auto simp: Let_def)

lemma cur_list_Suc:
  "Suc k < length rows \<Longrightarrow>
   cur_list pos st rows ! Suc k =
     (if bar_flag (snd (rows ! Suc k))
      then (if bar_flag (snd (rows ! k))
               \<and> int (pos (bar_date (snd (rows ! Suc k)))) - int (pos (bar_date (snd (rows ! k)))) = 1
            then cur_list pos st rows ! k + 1 else 1)
      else 0)"
proof (induction pos st rows arbitrary: k rule: cur_list.induct)
  case (1 pos st)
  then show ?case by simp
next
  case (2 pos ps pl pp i r rest)
  show ?case
  proof (cases k)
    case 0
    with 2(2) obtain x rest' where rest: "rest = x # rest'" by (cases rest) auto
    obtain j r' where x: "x = (j, r')" by (cases x)
    show ?thesis using 0 by (simp add: rest x Let_def)
  next
    case (Suc k')
    with 2(2) have "Suc k' < length rest" by simp
    from 2(1) [OF refl refl this] Suc show ?thesis
      by (simp add: Let_def)
  qed
qed


lemma stock_rows_index_unique:
  assumes "distinct (map fst S)" "x \<in> set (stock_rows S c)" "y \<in> set (stock_rows S c')"
    "fst x = fst y"
  shows "c = c'"
proof -
  from assms(2,3) have xy: "x \<in> set S" "y \<in> set S"
    and c: "bar_code (snd x) = c" "bar_code (snd y) = c'"
    by (auto simp: stock_rows_def)
  from assms(1) have "inj_on fst (set S)" by (simp add: distinct_map)
  with xy assms(4) have "x = y" by (auto dest: inj_onD)
  with c show ?thesis by simp
qed

lemma fold_scan_other:
  "(\<And>c. c \<in> set codes \<Longrightarrow> j \<notin> fst ` set (stock_rows S c)) \<Longrightarrow>
   fold (\<lambda>c col. scan_stock pos st (stock_rows S c) col) codes col ! j = col ! j"
  by (induction codes arbitrary: col) (simp_all add: scan_stock_other)

lemma length_fold_scan [simp]:
  "length (fold (\<lambda>c col. scan_stock pos st (stock_rows S c) col) codes col) = length col"
  by (induction codes arbitrary: col) simp_all

lemma fold_scan_nth:
  assumes "distinct (map fst S)"
  shows "distinct codes \<Longrightarrow> c \<in> set codes \<Longrightarrow> k < length (stock_rows S c)
    \<Longrightarrow> fst (stock_rows S c ! k) < length col
    \<Longrightarrow> fold (\<lambda>c col. scan_stock pos st (stock_rows S c) col) codes col ! fst (stock_rows S c ! k)
          = cur_list pos st (stock_rows S c) ! k"
proof (induction codes arbitrary: col)
  case Nil
  then show ?case by simp
next
  case (Cons a rest)
  have dG: "distinct (map fst (stock_rows S c))"
    using assms by (simp add: stock_rows_def distinct_map_filter)
  show ?case
  proof (cases "a = c")
    case True
    with Cons.prems(1) have notin: "c \<notin> set rest" by simp
    have mem: "stock_rows S c ! k \<in> set (stock_rows S c)"
      using Cons.prems(3) by simp
    have "\<And>c'. c' \<in> set rest \<Longrightarrow> fst (stock_rows S c ! k) \<notin> fst ` set (stock_rows S c')"
    proof
      fix c' assume c': "c' \<in> set rest" and "fst (stock_rows S c ! k) \<in> fst ` set (stock_rows S c')"
      then obtain y where "y \<in> set (stock_rows S c')" "fst (stock_rows S c ! k) = fst y" by auto
      with stock_rows_index_unique [OF assms mem] have "c = c'" by blast
      with c' notin show False by simp
    qed
    then have "fold (\<lambda>c col. scan_stock pos st (stock_rows S c) col) rest
                 (scan_stock pos st (stock_rows S c) col) ! fst (stock_rows S c ! k)
               = scan_stock pos st (stock_rows S c) col ! fst (stock_rows S c ! k)"
      by (rule fold_scan_other)
    also have "\<dots> = cur_list pos st (stock_rows S c) ! k"
      using dG Cons.prems(3,4) by (rule scan_stock_nth)
    finally show ?thesis using True by simp
  next
    case False
    with Cons.prems have "distinct rest" "c \<in> set rest" by simp_all
    from Cons.IH [OF this Cons.prems(3), of "scan_stock pos st (stock_rows S a) col"] Cons.prems(4)
    show ?thesis by simp
  qed
qed


lemma insort_key_lex:
  fixes f :: "'a \<Rightarrow> 'k::linorder" and g :: "'a \<Rightarrow> 'j::linorder"
  assumes "sorted_wrt (\<lambda>a b. (f a, g a) < (f b, g b)) ys" "\<forall>y\<in>set ys. g x < g y"
  shows "sorted_wrt (\<lambda>a b. (f a, g a) < (f b, g b)) (insort_key f x ys)"
  using assms
proof (induction ys)
  case Nil
  then show ?case by simp
next
  case (Cons y ys)
  show ?case
  proof (cases "f x \<le> f y")
    case True
    have "\<And>z. z \<in> set (y # ys) \<Longrightarrow> (f x, g x) < (f z, g z)"
    proof -
      fix z assume z: "z \<in> set (y # ys)"
      have "f y \<le> f z"
      proof (cases "z = y")
        case False
        with z Cons.prems(1) have "(f y, g y) < (f z, g z)" by auto
        then show ?thesis by auto
      qed simp
      with True have "f x \<le> f z" by simp
      moreover from z Cons.prems(2) have "g x < g z" by auto
      ultimately show "(f x, g x) < (f z, g z)" by simp
    qed
    with True Cons.prems(1) show ?thesis by simp
  next
    case False
    then have yx: "(f y, g y) < (f x, g x)" by auto
    from Cons.prems have "sorted_wrt (\<lambda>a b. (f a, g a) < (f b, g b)) (insort_key f x ys)"
      by (intro Cons.IH) simp_all
    moreover from Cons.prems(1) yx
    have "\<forall>z\<in>set (insort_key f x ys). (f y, g y) < (f z, g z)"
      by (simp add: set_insort_key)
    ultimately show ?thesis using False by simp
  qed
qed

lemma sort_key_lex:
  fixes f :: "'a \<Rightarrow> 'k::linorder" and g :: "'a \<Rightarrow> 'j::linorder"
  assumes "sorted_wrt (\<lambda>a b. g a < g b) xs"
  shows "sorted_wrt (\<lambda>a b. (f a, g a) < (f b, g b)) (sort_key f xs)"
  using assms
proof (induction xs)
  case Nil
  then show ?case by simp
next
  case (Cons x xs)
  from Cons.prems have "sorted_wrt (\<lambda>a b. g a < g b) xs" and "\<forall>y\<in>set (sort_key f xs). g x < g y"
    by simp_all
  with Cons.IH have "sorted_wrt (\<lambda>a b. (f a, g a) < (f b, g b)) (insort_key f x (sort_key f xs))"
    by (intro insort_key_lex) simp_all
  then show ?case by (simp only: sort_key_simps)
qed

lemma set_sort_daily:
  "set (sort_daily bars) = {(i, bars ! i) | i. i < length bars}"
proof -
  have z: "\<And>x. x \<in> set (zip [0..<length bars] bars) \<longleftrightarrow> (\<exists>i<length bars. x = (i, bars ! i))"
    by (auto simp: in_set_conv_nth)
  have "set (zip [0..<length bars] bars) = {(i, bars ! i) | i. i < length bars}"
    by (rule set_eqI) (simp only: z mem_Collect_eq, blast)
  then show ?thesis by (simp add: sort_daily_def)
qed

lemma distinct_sort_daily: "distinct (map fst (sort_daily bars))"
proof -
  have "distinct (sort_daily bars)"
    by (simp add: sort_daily_def distinct_zipI1)
  moreover have "inj_on fst (set (sort_daily bars))"
    by (auto simp: set_sort_daily inj_on_def)
  ultimately show ?thesis by (simp add: distinct_map)
qed

lemma sorted_sort_daily:
  "sorted_wrt (\<lambda>x y. ((bar_code (snd x), bar_date (snd x)), fst x)
                      < ((bar_code (snd y), bar_date (snd y)), fst y)) (sort_daily bars)"
proof -
  have "sorted_wrt (\<lambda>a b. fst a < fst b) (zip [0..<length bars] bars)"
    using sorted_wrt_map [of "(<)" fst "zip [0..<length bars] bars"] by simp
  from sort_key_lex [OF this, of "\<lambda>(i, r). (bar_code r, bar_date r)"]
  show ?thesis by (simp add: sort_daily_def case_prod_unfold)
qed

lemma sorted_stock_rows:
  "sorted_wrt (\<lambda>x y. (bar_date (snd x), fst x) < (bar_date (snd y), fst y))
     (stock_rows (sort_daily bars) c)"
proof -
  have "sorted_wrt (\<lambda>x y. ((bar_code (snd x), bar_date (snd x)), fst x)
                      < ((bar_code (snd y), bar_date (snd y)), fst y))
          (stock_rows (sort_daily bars) c)"
    unfolding stock_rows_def by (rule sorted_wrt_filter) (rule sorted_sort_daily)
  then show ?thesis
    by (rule sorted_wrt_mono_rel [rotated]) (auto simp: stock_rows_def)
qed


lemma stock_rows_member:
  assumes "x \<in> set (stock_rows (sort_daily bars) c)"
  shows "\<exists>j<length bars. x = (j, bars ! j) \<and> bar_code (bars ! j) = c"
  using assms by (auto simp: stock_rows_def set_sort_daily)

lemma stock_rows_position:
  assumes "i < length bars"
  shows "\<exists>k<length (stock_rows (sort_daily bars) (bar_code (bars ! i))).
           stock_rows (sort_daily bars) (bar_code (bars ! i)) ! k = (i, bars ! i)"
proof -
  from assms have "(i, bars ! i) \<in> set (stock_rows (sort_daily bars) (bar_code (bars ! i)))"
    by (auto simp: stock_rows_def set_sort_daily)
  then show ?thesis by (auto simp: in_set_conv_nth)
qed

lemma before_iff_position:
  assumes "a < length (stock_rows (sort_daily bars) c)"
      and "b < length (stock_rows (sort_daily bars) c)"
      and "stock_rows (sort_daily bars) c ! a = (j, bars ! j)"
      and "stock_rows (sort_daily bars) c ! b = (i, bars ! i)"
  shows "before bars j i \<longleftrightarrow> a < b"
proof -
  let ?G = "stock_rows (sort_daily bars) c"
  let ?K = "\<lambda>x. (bar_date (snd x), fst x)"
  have srt: "sorted_wrt (\<lambda>x y. ?K x < ?K y) ?G" by (rule sorted_stock_rows)
  have "(j, bars ! j) \<in> set ?G" "(i, bars ! i) \<in> set ?G"
    using nth_mem [OF assms(1)] nth_mem [OF assms(2)] assms(3,4) by simp_all
  then have cj: "bar_code (bars ! j) = c" and ci: "bar_code (bars ! i) = c"
    by (auto dest!: stock_rows_member)
  have lt: "\<And>u v. u < v \<Longrightarrow> v < length ?G \<Longrightarrow> ?K (?G ! u) < ?K (?G ! v)"
    using srt by (rule sorted_wrt_nth_less)
  show ?thesis
  proof
    assume bf: "before bars j i"
    then have k: "?K (?G ! a) < ?K (?G ! b)" by (simp add: before_def assms)
    show "a < b"
    proof (rule ccontr)
      assume "\<not> a < b"
      then consider "a = b" | "b < a" by linarith
      then show False
      proof cases
        case 1
        with k show False by simp
      next
        case 2
        from lt [OF 2 assms(1)] k show False using less_not_sym by blast
      qed
    qed
  next
    assume "a < b"
    from lt [OF this assms(2)] show "before bars j i"
      by (simp add: before_def assms cj ci)
  qed
qed

lemma streak_core_at:
  assumes "i < length bars"
      and "k < length (stock_rows (sort_daily bars) (bar_code (bars ! i)))"
      and "stock_rows (sort_daily bars) (bar_code (bars ! i)) ! k = (i, bars ! i)"
  shows "streak_core bars ! i
           = cur_list (position_of (market_calendar bars)) (0, False, None)
               (stock_rows (sort_daily bars) (bar_code (bars ! i))) ! k"
proof -
  let ?S = "sort_daily bars"
  let ?c = "bar_code (bars ! i)"
  let ?codes = "remdups (map (\<lambda>(i, r). bar_code r) ?S)"
  have "(i, bars ! i) \<in> set ?S" using assms(1) by (auto simp: set_sort_daily)
  then have mem: "?c \<in> set ?codes" by force
  have idx: "fst (stock_rows ?S ?c ! k) < length (replicate (length bars) (0::nat))"
    using assms by simp
  from fold_scan_nth [OF distinct_sort_daily _ mem assms(2) idx,
        of "position_of (market_calendar bars)" "(0, False, None)"]
  show ?thesis by (simp add: streak_core_def Let_def assms(3))
qed


lemma cur_list_not_limit_up:
  assumes "k < length rows" "\<not> bar_flag (snd (rows ! k))"
  shows "cur_list pos (ps, False, pp) rows ! k = 0"
proof (cases k)
  case 0
  with assms show ?thesis by (simp add: cur_list_0)
next
  case (Suc k')
  with assms show ?thesis by (simp add: cur_list_Suc)
qed

lemma streak_core_not_limit_up:
  assumes "i < length bars" "\<not> bar_flag (bars ! i)"
  shows "streak_core bars ! i = 0"
proof -
  from stock_rows_position [OF assms(1)] obtain k where
    k: "k < length (stock_rows (sort_daily bars) (bar_code (bars ! i)))"
       "stock_rows (sort_daily bars) (bar_code (bars ! i)) ! k = (i, bars ! i)"
    by blast
  from streak_core_at [OF assms(1) k] k assms(2) show ?thesis
    by (simp add: cur_list_not_limit_up)
qed

lemma previous_row_position:
  assumes "i < length bars"
      and "k < length (stock_rows (sort_daily bars) (bar_code (bars ! i)))"
      and "stock_rows (sort_daily bars) (bar_code (bars ! i)) ! k = (i, bars ! i)"
  shows "previous_row bars p i \<longleftrightarrow>
           (\<exists>m. k = Suc m \<and> stock_rows (sort_daily bars) (bar_code (bars ! i)) ! m = (p, bars ! p))"
proof
  let ?G = "stock_rows (sort_daily bars) (bar_code (bars ! i))"
  assume pr: "previous_row bars p i"
  then have p: "p < length bars" and bf: "before bars p i"
    and nb: "\<And>j. j < length bars \<Longrightarrow> \<not> (before bars p j \<and> before bars j i)"
    by (auto simp: previous_row_def)
  from bf have code: "bar_code (bars ! p) = bar_code (bars ! i)" by (simp add: before_def)
  from stock_rows_position [OF p] code obtain m where
    m: "m < length ?G" "?G ! m = (p, bars ! p)" by auto
  from before_iff_position [OF m(1) assms(2) m(2) assms(3)] bf have mk: "m < k" by simp
  have "k = Suc m"
  proof (rule ccontr)
    assume "k \<noteq> Suc m"
    with mk have lt: "Suc m < k" by simp
    then have len: "Suc m < length ?G" using assms(2) by simp
    from stock_rows_member [OF nth_mem [OF len]] obtain j where
      j: "j < length bars" "?G ! Suc m = (j, bars ! j)" by blast
    have "before bars p j"
      using before_iff_position [OF m(1) len m(2) j(2)] by simp
    moreover have "before bars j i"
      using before_iff_position [OF len assms(2) j(2) assms(3)] lt by simp
    ultimately show False using nb [OF j(1)] by simp
  qed
  with m show "\<exists>m. k = Suc m \<and> ?G ! m = (p, bars ! p)" by blast
next
  let ?G = "stock_rows (sort_daily bars) (bar_code (bars ! i))"
  assume "\<exists>m. k = Suc m \<and> ?G ! m = (p, bars ! p)"
  then obtain m where km: "k = Suc m" and m: "?G ! m = (p, bars ! p)" by blast
  from km assms(2) have mlen: "m < length ?G" by simp
  from stock_rows_member [OF nth_mem [OF mlen]] m have p: "p < length bars" by auto
  have bf: "before bars p i"
    using before_iff_position [OF mlen assms(2) m assms(3)] km by simp
  have "\<not> (before bars p j \<and> before bars j i)" if j: "j < length bars" for j
  proof
    assume b: "before bars p j \<and> before bars j i"
    then have "bar_code (bars ! j) = bar_code (bars ! i)" by (simp add: before_def)
    with stock_rows_position [OF j] obtain mj where
      mj: "mj < length ?G" "?G ! mj = (j, bars ! j)" by auto
    from before_iff_position [OF mlen mj(1) m mj(2)] b have "m < mj" by simp
    moreover from before_iff_position [OF mj(1) assms(2) mj(2) assms(3)] b have "mj < k" by simp
    ultimately show False using km by simp
  qed
  with p bf show "previous_row bars p i" by (simp add: previous_row_def)
qed

lemma streak_core_first:
  assumes "i < length bars" "bar_flag (bars ! i)" "\<And>p. \<not> previous_row bars p i"
  shows "streak_core bars ! i = 1"
proof -
  let ?G = "stock_rows (sort_daily bars) (bar_code (bars ! i))"
  from stock_rows_position [OF assms(1)] obtain k where
    k: "k < length ?G" "?G ! k = (i, bars ! i)" by blast
  have "k = 0"
  proof (cases k)
    case (Suc m)
    with k(1) have "m < length ?G" by simp
    from stock_rows_member [OF nth_mem [OF this]] obtain p where "?G ! m = (p, bars ! p)"
      by blast
    with Suc previous_row_position [OF assms(1) k, of p] assms(3) show ?thesis by blast
  qed simp
  with streak_core_at [OF assms(1) k] k assms(2) show ?thesis
    by (simp add: cur_list_0 length_greater_0_conv [symmetric] del: length_greater_0_conv)
qed

lemma streak_core_next:
  assumes "i < length bars" "bar_flag (bars ! i)" "previous_row bars p i"
  shows "streak_core bars ! i =
           (if bar_flag (bars ! p)
               \<and> position_of (market_calendar bars) (bar_date (bars ! i))
                  = position_of (market_calendar bars) (bar_date (bars ! p)) + 1
            then streak_core bars ! p + 1 else 1)"
proof -
  let ?G = "stock_rows (sort_daily bars) (bar_code (bars ! i))"
  let ?pos = "position_of (market_calendar bars)"
  from stock_rows_position [OF assms(1)] obtain k where
    k: "k < length ?G" "?G ! k = (i, bars ! i)" by blast
  from previous_row_position [OF assms(1) k, of p] assms(3) obtain m where
    m: "k = Suc m" "?G ! m = (p, bars ! p)" by blast
  from assms(3) have p: "p < length bars" and "before bars p i"
    by (simp_all add: previous_row_def)
  then have code: "bar_code (bars ! p) = bar_code (bars ! i)" by (simp add: before_def)
  from m(1) k(1) have mlen: "m < length ?G" by simp
  have sp: "streak_core bars ! p = cur_list ?pos (0, False, None) ?G ! m"
    using streak_core_at [OF p] mlen m(2) code by simp
  have si: "streak_core bars ! i = cur_list ?pos (0, False, None) ?G ! Suc m"
    using streak_core_at [OF assms(1) k] m(1) by simp
  have "int (?pos (bar_date (bars ! i))) - int (?pos (bar_date (bars ! p))) = 1
          \<longleftrightarrow> ?pos (bar_date (bars ! i)) = ?pos (bar_date (bars ! p)) + 1"
    by linarith
  with k m assms(2) show ?thesis
    by (simp add: si sp cur_list_Suc)
qed


lemma position_of_nth:
  "x \<in> set xs \<Longrightarrow> position_of xs x < length xs \<and> xs ! position_of xs x = x"
proof -
  assume x: "x \<in> set xs"
  then have lt: "length (takeWhile (\<lambda>y. y \<noteq> x) xs) < length xs"
    by (induction xs) auto
  from nth_length_takeWhile [OF lt] lt show ?thesis
    by (simp add: position_of_def)
qed

lemma position_of_inj:
  "x \<in> set xs \<Longrightarrow> y \<in> set xs \<Longrightarrow> position_of xs x = position_of xs y \<Longrightarrow> x = y"
  using position_of_nth by metis

lemma set_market_calendar [simp]: "set (market_calendar bars) = bar_date ` set bars"
  by (simp add: market_calendar_def)

lemma streak_core_gap:
  assumes "i < length bars" "bar_flag (bars ! i)"
      and "missing \<in> set (market_calendar bars)"
      and "position_of (market_calendar bars) (bar_date (bars ! i))
             = position_of (market_calendar bars) missing + 1"
      and "\<And>j. j < length bars \<Longrightarrow> bar_code (bars ! j) = bar_code (bars ! i)
                 \<Longrightarrow> bar_date (bars ! j) \<noteq> missing"
  shows "streak_core bars ! i = 1"
proof (cases "\<exists>p. previous_row bars p i")
  case False
  with assms(1,2) show ?thesis by (simp add: streak_core_first)
next
  case True
  then obtain p where pr: "previous_row bars p i" by blast
  then have p: "p < length bars" and code: "bar_code (bars ! p) = bar_code (bars ! i)"
    by (simp_all add: previous_row_def before_def)
  have "position_of (market_calendar bars) (bar_date (bars ! p))
          \<noteq> position_of (market_calendar bars) missing"
  proof
    assume "position_of (market_calendar bars) (bar_date (bars ! p))
              = position_of (market_calendar bars) missing"
    moreover have "bar_date (bars ! p) \<in> set (market_calendar bars)" using p by simp
    ultimately have "bar_date (bars ! p) = missing"
      using assms(3) by (rule position_of_inj [rotated 2])
    with assms(5) [OF p code] show False by simp
  qed
  with assms(4) streak_core_next [OF assms(1,2) pr] show ?thesis by simp
qed


lemma length_streak_core [simp]: "length (streak_core bars) = length bars"
  by (simp add: streak_core_def Let_def)

lemma those_Some:
  "those xs = Some ys \<Longrightarrow> length ys = length xs \<and> (\<forall>i<length xs. xs ! i = Some (ys ! i))"
proof (induction xs arbitrary: ys)
  case Nil
  then show ?case by simp
next
  case (Cons x xs)
  then obtain y ys' where x: "x = Some y" and t: "those xs = Some ys'" and ys: "ys = y # ys'"
    by (auto split: option.splits)
  from Cons.IH [OF t] show ?case
    by (auto simp: x ys nth_Cons split: nat.splits)
qed

lemma compute_limitup_streak_Inr:
  assumes "compute_limitup_streak f daily_df = Inr out"
  shows "length out = length daily_df
       \<and> map snd out = streak_core (map fst out)
       \<and> (\<forall>i<length out.
             bar_code (fst (out ! i)) = bar_code (daily_df ! i)
           \<and> f (strip (bar_date (daily_df ! i))) = Some (bar_date (fst (out ! i)))
           \<and> bar_flag (fst (out ! i)) = coerce_bool (snd (snd (daily_df ! i))))"
proof -
  from assms obtain dates where
    d: "those (map (\<lambda>d. f (strip d)) (map bar_date daily_df)) = Some dates"
    by (auto simp: compute_limitup_streak_def normalize_trade_date_series_def
          split: option.splits sum.splits)
  define labeled where
    "labeled = map2 (\<lambda>r d. (bar_code r, d, coerce_bool (snd (snd r)))) daily_df dates"
  from those_Some [OF d] have len: "length dates = length daily_df"
    and dd: "\<And>i. i < length daily_df \<Longrightarrow> f (strip (bar_date (daily_df ! i))) = Some (dates ! i)"
    by simp_all
  from assms d have out: "out = zip labeled (streak_core labeled)"
    by (simp add: compute_limitup_streak_def normalize_trade_date_series_def labeled_def Let_def)
  have ll: "length labeled = length daily_df" by (simp add: labeled_def len)
  have lab: "\<And>i. i < length daily_df \<Longrightarrow>
               labeled ! i = (bar_code (daily_df ! i), dates ! i, coerce_bool (snd (snd (daily_df ! i))))"
    by (simp add: labeled_def len)
  have f: "map fst out = labeled" and s: "map snd out = streak_core labeled"
    by (simp_all add: out)
  have "\<And>i. i < length out \<Longrightarrow> fst (out ! i) = labeled ! i"
    using f by (metis length_map nth_map)
  with ll lab dd show ?thesis
    by (simp add: f s out bar_code_def bar_date_def bar_flag_def)
qed


text \<open>
  Claim C1. In the output of the streak tracker a row that is not limit-up has streak 0. A
  limit-up row has the streak of its previous observed row plus 1 when that row (same
  instrument) is limit-up and its date is one position earlier in the sorted calendar of all
  distinct dates of the input; otherwise, and when it has no previous observed row, its streak
  is 1. In particular, when the date one position earlier in the calendar is missing for the
  instrument, the streak is 1.
\<close>

theorem streak_up_recurrence:
  assumes "compute_limitup_streak f daily_df = Inr out"
  shows "length out = length daily_df
       \<and> (\<forall>i<length out.
             bar_flag (fst (out ! i)) = coerce_bool (snd (snd (daily_df ! i))))
       \<and> (\<forall>i<length out. \<not> bar_flag (fst (out ! i)) \<longrightarrow> snd (out ! i) = 0)
       \<and> (\<forall>i<length out. bar_flag (fst (out ! i)) \<longrightarrow>
             (\<forall>p. previous_row (map fst out) p i \<longrightarrow>
                snd (out ! i) =
                  (if bar_flag (fst (out ! p))
                      \<and> position_of (market_calendar (map fst out)) (bar_date (fst (out ! i)))
                         = position_of (market_calendar (map fst out)) (bar_date (fst (out ! p))) + 1
                   then snd (out ! p) + 1 else 1))
           \<and> ((\<forall>p. \<not> previous_row (map fst out) p i) \<longrightarrow> snd (out ! i) = 1))
       \<and> (\<forall>i<length out. \<forall>missing.
             bar_flag (fst (out ! i))
           \<and> missing \<in> set (market_calendar (map fst out))
           \<and> position_of (market_calendar (map fst out)) (bar_date (fst (out ! i)))
                = position_of (market_calendar (map fst out)) missing + 1
           \<and> (\<forall>j<length out. bar_code (fst (out ! j)) = bar_code (fst (out ! i))
                  \<longrightarrow> bar_date (fst (out ! j)) \<noteq> missing)
           \<longrightarrow> snd (out ! i) = 1)"
proof -
  define bars where "bars = map fst out"
  from compute_limitup_streak_Inr [OF assms] have
    len: "length out = length daily_df" and
    s: "map snd out = streak_core bars" and
    fl: "\<forall>i<length out. bar_flag (fst (out ! i)) = coerce_bool (snd (snd (daily_df ! i)))"
    by (simp_all add: bars_def)
  have lb: "length bars = length out" by (simp add: bars_def)
  have b: "\<And>i. i < length out \<Longrightarrow> fst (out ! i) = bars ! i"
    by (simp add: bars_def)
  have v: "\<And>i. i < length out \<Longrightarrow> snd (out ! i) = streak_core bars ! i"
    using s by (metis length_map nth_map)
  have pl: "\<And>p i. previous_row bars p i \<Longrightarrow> p < length out"
    by (simp add: previous_row_def lb)
  have A: "\<forall>i<length out. \<not> bar_flag (fst (out ! i)) \<longrightarrow> snd (out ! i) = 0"
    by (simp add: b v streak_core_not_limit_up lb)
  have B: "\<forall>i<length out. bar_flag (fst (out ! i)) \<longrightarrow>
             (\<forall>p. previous_row bars p i \<longrightarrow>
                snd (out ! i) =
                  (if bar_flag (fst (out ! p))
                      \<and> position_of (market_calendar bars) (bar_date (fst (out ! i)))
                         = position_of (market_calendar bars) (bar_date (fst (out ! p))) + 1
                   then snd (out ! p) + 1 else 1))
           \<and> ((\<forall>p. \<not> previous_row bars p i) \<longrightarrow> snd (out ! i) = 1)"
  proof (intro allI impI conjI)
    fix i p assume i: "i < length out" and f: "bar_flag (fst (out ! i))"
      and pr: "previous_row bars p i"
    from i f have "i < length bars" "bar_flag (bars ! i)" by (simp_all add: b lb)
    from streak_core_next [OF this pr] pl [OF pr] i
    show "snd (out ! i) =
            (if bar_flag (fst (out ! p))
                \<and> position_of (market_calendar bars) (bar_date (fst (out ! i)))
                   = position_of (market_calendar bars) (bar_date (fst (out ! p))) + 1
             then snd (out ! p) + 1 else 1)"
      by (simp add: b v)
  next
    fix i assume i: "i < length out" and f: "bar_flag (fst (out ! i))"
      and np: "\<forall>p. \<not> previous_row bars p i"
    from i f have "i < length bars" "bar_flag (bars ! i)" by (simp_all add: b lb)
    from streak_core_first [OF this] np i show "snd (out ! i) = 1" by (simp add: v)
  qed
  have C: "\<forall>i<length out. \<forall>missing.
             bar_flag (fst (out ! i))
           \<and> missing \<in> set (market_calendar bars)
           \<and> position_of (market_calendar bars) (bar_date (fst (out ! i)))
                = position_of (market_calendar bars) missing + 1
           \<and> (\<forall>j<length out. bar_code (fst (out ! j)) = bar_code (fst (out ! i))
                  \<longrightarrow> bar_date (fst (out ! j)) \<noteq> missing)
           \<longrightarrow> snd (out ! i) = 1"
  proof (intro allI impI)
    fix i missing assume i: "i < length out"
      and h: "bar_flag (fst (out ! i))
           \<and> missing \<in> set (market_calendar bars)
           \<and> position_of (market_calendar bars) (bar_date (fst (out ! i)))
                = position_of (market_calendar bars) missing + 1
           \<and> (\<forall>j<length out. bar_code (fst (out ! j)) = bar_code (fst (out ! i))
                  \<longrightarrow> bar_date (fst (out ! j)) \<noteq> missing)"
    have "streak_core bars ! i = 1"
    proof (rule streak_core_gap [where missing = missing])
      show "i < length bars" using i by (simp add: lb)
      show "bar_flag (bars ! i)" using h i by (simp add: b)
      show "missing \<in> set (market_calendar bars)" using h by simp
      show "position_of (market_calendar bars) (bar_date (bars ! i))
              = position_of (market_calendar bars) missing + 1"
        using h i by (simp add: b)
      show "\<And>j. j < length bars \<Longrightarrow> bar_code (bars ! j) = bar_code (bars ! i)
                 \<Longrightarrow> bar_date (bars ! j) \<noteq> missing"
        using h i by (simp add: b lb)
    qed
    with i show "snd (out ! i) = 1" by (simp add: v)
  qed
  from len fl A B C show ?thesis
    unfolding bars_def by blast
qed

theorem streak_up_recurrence_witness:
  "compute_limitup_streak keep_text gap_table = Inr gap_table_out
 \<and> snd (gap_table_out ! 1) = 1
 \<and> snd (gap_table_out ! 2) = 0"
proof -
  have run: "compute_limitup_streak keep_text gap_table = Inr gap_table_out"
    by code_simp
  note t = streak_up_recurrence [OF run]
  have len: "length gap_table_out = 5" by (simp add: gap_table_out_def)
  have nf: "\<not> bar_flag (fst (gap_table_out ! 2))"
    by (simp add: gap_table_out_def bar_flag_def)
  from t have "\<And>i. i < length gap_table_out \<Longrightarrow> \<not> bar_flag (fst (gap_table_out ! i))
                  \<Longrightarrow> snd (gap_table_out ! i) = 0"
    by blast
  from this [OF _ nf] len have z: "snd (gap_table_out ! 2) = 0" by simp
  have h: "bar_flag (fst (gap_table_out ! 1))
      \<and> ''20240103'' \<in> set (market_calendar (map fst gap_table_out))
      \<and> position_of (market_calendar (map fst gap_table_out)) (bar_date (fst (gap_table_out ! 1)))
           = position_of (market_calendar (map fst gap_table_out)) ''20240103'' + 1
      \<and> (\<forall>j<length gap_table_out.
            bar_code (fst (gap_table_out ! j)) = bar_code (fst (gap_table_out ! 1))
              \<longrightarrow> bar_date (fst (gap_table_out ! j)) \<noteq> ''20240103'')"
    by code_simp
  from t have "\<And>i missing. i < length gap_table_out \<Longrightarrow>
           bar_flag (fst (gap_table_out ! i))
           \<and> missing \<in> set (market_calendar (map fst gap_table_out))
           \<and> position_of (market_calendar (map fst gap_table_out)) (bar_date (fst (gap_table_out ! i)))
                = position_of (market_calendar (map fst gap_table_out)) missing + 1
           \<and> (\<forall>j<length gap_table_out.
                 bar_code (fst (gap_table_out ! j)) = bar_code (fst (gap_table_out ! i))
                  \<longrightarrow> bar_date (fst (gap_table_out ! j)) \<noteq> missing)
           \<Longrightarrow> snd (gap_table_out ! i) = 1"
    by blast
  from this [OF _ h] len have "snd (gap_table_out ! 1) = 1" by simp
  with run z show ?thesis by simp
qed










lemma length_permute_rows [simp]: "length (permute_rows \<pi> xs) = length xs"
  by (simp add: permute_rows_def)

lemma nth_permute_rows [simp]: "k < length xs \<Longrightarrow> permute_rows \<pi> xs ! k = xs ! \<pi> k"
  by (simp add: permute_rows_def)


lemma those_map_Some [simp]: "those (map Some ys) = Some ys"
  by (induction ys) simp_all








section \<open>The forward-return engine\<close>

lemma zip_upt_eq_map: "zip [0..<length xs] xs = map (\<lambda>i. (i, xs ! i)) [0..<length xs]"
  by (rule nth_equalityI) simp_all

lemma sort_with_index_eq: "sort_with_index bars = sort_daily bars"
proof -
  let ?K = "\<lambda>(i, r). (bar_code r, bar_date r, i)"
  let ?xs = "zip [0..<length bars] bars"
  have "sorted_wrt (\<lambda>x y. ?K x \<le> ?K y) (sort_daily bars)"
    by (rule sorted_wrt_mono_rel [OF _ sorted_sort_daily]) (auto simp: case_prod_unfold)
  then have srt: "sorted (map ?K (sort_daily bars))"
    by (simp add: sorted_wrt_map)
  have "set ?xs = set (sort_daily bars)"
    by (simp add: sort_daily_def)
  then have inj: "inj_on ?K (set ?xs)"
    by (auto simp: set_sort_daily inj_on_def)
  have "sort_key ?K ?xs = sort_daily bars"
    by (rule sort_key_inj_key_eq [OF _ inj srt]) (simp add: sort_daily_def)
  then show ?thesis by (simp add: sort_with_index_def)
qed


lemma length_shift_next [simp]: "length (shift_next G) = length G"
  by (cases G) (simp_all add: shift_next_def)

lemma map_fst_shift_next: "map fst (shift_next G) = map fst G"
  by (cases G) (simp_all add: shift_next_def)

lemma shift_next_nth:
  assumes "k < length G"
  shows "shift_next G ! k =
           (fst (G ! k),
            if Suc k < length G
            then (bar_open (snd (snd (snd (G ! Suc k)))), bar_close (snd (snd (snd (G ! Suc k)))))
            else (PyNaN, PyNaN))"
proof -
  let ?f = "\<lambda>(i, r). (bar_open (snd (snd r)), bar_close (snd (snd r)))"
  from assms have ne: "G \<noteq> []" by auto
  then have lt: "length (tl G) = length G - 1" by simp
  have "(map ?f (tl G) @ [(PyNaN, PyNaN)]) ! k =
          (if Suc k < length G then ?f (G ! Suc k) else (PyNaN, PyNaN))"
    using assms by (auto simp: nth_append nth_tl)
  with assms show ?thesis
    by (simp add: shift_next_def case_prod_unfold)
qed

lemma next_prices_lookup:
  assumes d: "distinct (map fst S)" and k: "k < length (stock_rows S c)"
  shows "map_of (next_prices S) (fst (stock_rows S c ! k)) = Some (snd (shift_next (stock_rows S c) ! k))"
proof -
  let ?G = "stock_rows S c"
  let ?i = "fst (?G ! k)"
  let ?codes = "remdups (map (\<lambda>(i, r). bar_code r) S)"
  have dG: "distinct (map fst ?G)"
    using d by (simp add: stock_rows_def distinct_map_filter)
  have memG: "?G ! k \<in> set ?G" using k by simp
  then have "?G ! k \<in> set S" "bar_code (snd (?G ! k)) = c"
    by (auto simp: stock_rows_def)
  then have c: "c \<in> set ?codes"
    by (auto simp: image_iff case_prod_unfold intro!: bexI [where x = "?G ! k"])
  have "shift_next ?G ! k \<in> set (shift_next ?G)" using k by simp
  then have "(?i, snd (shift_next ?G ! k)) \<in> set (shift_next ?G)"
    using k by (simp add: shift_next_nth)
  with c have "(?i, snd (shift_next ?G ! k)) \<in> set (next_prices S)"
    unfolding next_prices_def set_concat set_map by blast
  then obtain y where y: "map_of (next_prices S) ?i = Some y"
    using weak_map_of_SomeI by fastforce
  then have "(?i, y) \<in> set (next_prices S)" by (rule map_of_SomeD)
  then obtain c' where c': "(?i, y) \<in> set (shift_next (stock_rows S c'))"
    unfolding next_prices_def set_concat set_map by blast
  then have "?i \<in> fst ` set (shift_next (stock_rows S c'))" by force
  then have "?i \<in> set (map fst (stock_rows S c'))"
    by (simp add: map_fst_shift_next [symmetric] del: set_map) simp
  then obtain x where "x \<in> set (stock_rows S c')" "fst x = ?i" by auto
  with stock_rows_index_unique [OF d memG] have "c = c'" by metis
  with c' obtain k' where k': "k' < length ?G" "shift_next ?G ! k' = (?i, y)"
    by (auto simp: in_set_conv_nth)
  then have "fst (?G ! k') = ?i" by (simp add: shift_next_nth)
  then have "map fst ?G ! k' = map fst ?G ! k" using k k' by simp
  with dG k k' have "k' = k" by (simp add: nth_eq_iff_index_eq del: nth_map)
  with k' have "y = snd (shift_next ?G ! k)" by simp
  with y show ?thesis by simp
qed

lemma restore_order:
  "sort_key fst (map (\<lambda>(i, r). (i, F i r)) (sort_daily bars))
     = map (\<lambda>i. (i, F i (bars ! i))) [0..<length bars]"
proof (rule sort_key_inj_key_eq)
  have "mset (map (\<lambda>(i, r). (i, F i r)) (sort_daily bars))
          = mset (map (\<lambda>(i, r). (i, F i r)) (zip [0..<length bars] bars))"
    by (simp add: sort_daily_def)
  also have "\<dots> = mset (map (\<lambda>i. (i, F i (bars ! i))) [0..<length bars])"
    by (subst zip_upt_eq_map) (simp add: comp_def)
  finally show "mset (map (\<lambda>(i, r). (i, F i r)) (sort_daily bars))
                  = mset (map (\<lambda>i. (i, F i (bars ! i))) [0..<length bars])" .
  show "inj_on fst (set (map (\<lambda>(i, r). (i, F i r)) (sort_daily bars)))"
    by (auto simp: inj_on_def set_sort_daily)
  show "sorted (map fst (map (\<lambda>i. (i, F i (bars ! i))) [0..<length bars]))"
    by (simp add: comp_def)
qed


lemma compute_forward_return_nan [simp]:
  "compute_forward_return pn PyNaN c = None"
  by (simp add: compute_forward_return_def split: option.splits)

lemma next_row_position:
  assumes i: "i < length bars" and q: "q < length bars"
      and k: "k < length (stock_rows (sort_daily bars) (bar_code (bars ! i)))"
             "stock_rows (sort_daily bars) (bar_code (bars ! i)) ! k = (i, bars ! i)"
  shows "previous_row bars i q \<longleftrightarrow>
           (Suc k < length (stock_rows (sort_daily bars) (bar_code (bars ! i)))
            \<and> stock_rows (sort_daily bars) (bar_code (bars ! i)) ! Suc k = (q, bars ! q))"
proof
  let ?G = "stock_rows (sort_daily bars) (bar_code (bars ! i))"
  have dG: "distinct (map fst ?G)"
    using distinct_sort_daily [of bars] by (simp add: stock_rows_def distinct_map_filter)
  assume pr: "previous_row bars i q"
  then have code: "bar_code (bars ! q) = bar_code (bars ! i)"
    by (simp add: previous_row_def before_def)
  from stock_rows_position [OF q] code obtain kq where
    kq: "kq < length ?G" "?G ! kq = (q, bars ! q)" by auto
  from previous_row_position [OF q, of kq i] kq code pr obtain m where
    m: "kq = Suc m" "?G ! m = (i, bars ! i)" by auto
  from m kq have "m < length ?G" by simp
  moreover have "map fst ?G ! m = map fst ?G ! k" using m kq k by simp
  ultimately have "m = k"
    using dG k(1) by (simp add: nth_eq_iff_index_eq del: nth_map)
  with m kq show "Suc k < length ?G \<and> ?G ! Suc k = (q, bars ! q)" by simp
next
  let ?G = "stock_rows (sort_daily bars) (bar_code (bars ! i))"
  assume a: "Suc k < length ?G \<and> ?G ! Suc k = (q, bars ! q)"
  then have "(q, bars ! q) \<in> set ?G" by (metis nth_mem)
  then have code: "bar_code (bars ! q) = bar_code (bars ! i)"
    by (auto dest!: stock_rows_member)
  from previous_row_position [OF q, of "Suc k" i] a code k
  show "previous_row bars i q" by simp
qed

lemma length_keyed_rows [simp]:
  "length keys = length daily_df \<Longrightarrow> length (keyed_rows daily_df keys) = length daily_df"
  by (simp add: keyed_rows_def)

lemma nth_keyed_rows [simp]:
  "length keys = length daily_df \<Longrightarrow> i < length daily_df \<Longrightarrow>
   keyed_rows daily_df keys ! i = (bar_code (daily_df ! i), keys ! i, daily_df ! i)"
  by (simp add: keyed_rows_def)

text \<open>
  Claim C5. The output has the input's rows in the input's order. A row with a next row of
  the same instrument (next by date, ties by table position) gets
  \<open>open[t+1] / close[t] - 1\<close> and \<open>close[t+1] / close[t] - 1\<close>; the last row of an instrument
  gets NaN for both, and so does a row whose close is zero or missing.
\<close>

theorem next_day_returns:
  assumes run: "add_next_day_returns to_datetime parse_num daily_df = Inr out"
      and keys: "parse_trade_date to_datetime (map bar_date daily_df) = Inr keys"
  shows "length out = length daily_df
       \<and> (\<forall>i<length daily_df. fst (out ! i) = daily_df ! i)
       \<and> (\<forall>i<length daily_df. \<forall>q<length daily_df.
             previous_row (keyed_rows daily_df keys) i q \<longrightarrow>
               snd (out ! i) =
                 (compute_forward_return parse_num (bar_open (daily_df ! q)) (bar_close (daily_df ! i)),
                  compute_forward_return parse_num (bar_close (daily_df ! q)) (bar_close (daily_df ! i))))
       \<and> (\<forall>i<length daily_df.
             (\<forall>q<length daily_df. \<not> previous_row (keyed_rows daily_df keys) i q)
               \<longrightarrow> snd (out ! i) = (None, None))
       \<and> (\<forall>i<length daily_df.
             to_numeric parse_num (bar_close (daily_df ! i)) = None
             \<or> to_numeric parse_num (bar_close (daily_df ! i)) = Some 0
               \<longrightarrow> snd (out ! i) = (None, None))
       \<and> (\<forall>next_price current_close n c.
             to_numeric parse_num next_price = Some n
             \<and> to_numeric parse_num current_close = Some c \<and> c \<noteq> 0
               \<longrightarrow> compute_forward_return parse_num next_price current_close
                     = Some (fsub (fdiv n c) 1))"
proof -
  let ?n = "length daily_df"
  define bars where "bars = keyed_rows daily_df keys"
  define S where "S = sort_daily bars"
  define nx where "nx = (\<lambda>i. case map_of (next_prices S) i of None \<Rightarrow> (PyNaN, PyNaN) | Some v \<Rightarrow> v)"
  define F where "F = (\<lambda>i (r :: (string, 'a, price_row) bar).
                         (snd (snd r),
                          compute_forward_return parse_num (fst (nx i)) (bar_close (snd (snd r))),
                          compute_forward_return parse_num (snd (nx i)) (bar_close (snd (snd r)))))"
  from keys have th: "those (map (\<lambda>d. to_datetime (strip d)) (map bar_date daily_df)) = Some keys"
    by (auto simp: parse_trade_date_def split: option.splits)
  from those_Some [OF th] have len: "length keys = ?n" by simp
  have lb: "length bars = ?n" by (simp add: bars_def len)
  have b: "\<And>i. i < ?n \<Longrightarrow> bars ! i = (bar_code (daily_df ! i), keys ! i, daily_df ! i)"
    by (simp add: bars_def len)
  have "out = map snd (sort_key fst (map (\<lambda>(i, r). (i, F i r)) S))"
    using run keys
    by (simp add: add_next_day_returns_def Let_def sort_with_index_eq S_def bars_def F_def nx_def
          case_prod_unfold)
  also have "\<dots> = map (\<lambda>i. F i (bars ! i)) [0..<length bars]"
    by (simp add: S_def restore_order comp_def)
  finally have out: "out = map (\<lambda>i. F i (bars ! i)) [0..<?n]" by (simp add: lb)
  have o: "\<And>i. i < ?n \<Longrightarrow> out ! i = F i (bars ! i)" by (simp add: out)
  have A: "length out = ?n" by (simp add: out)
  have B: "\<forall>i<?n. fst (out ! i) = daily_df ! i"
    by (simp add: o F_def b)
  have pos: "\<And>i. i < ?n \<Longrightarrow> \<exists>k<length (stock_rows S (bar_code (bars ! i))).
                stock_rows S (bar_code (bars ! i)) ! k = (i, bars ! i)"
    unfolding S_def using stock_rows_position [of _ bars] by (simp add: lb)
  have nxv: "nx i = (if Suc k < length (stock_rows S (bar_code (bars ! i)))
                     then (bar_open (snd (snd (snd (stock_rows S (bar_code (bars ! i)) ! Suc k)))),
                           bar_close (snd (snd (snd (stock_rows S (bar_code (bars ! i)) ! Suc k)))))
                     else (PyNaN, PyNaN))"
    if "k < length (stock_rows S (bar_code (bars ! i)))"
       "stock_rows S (bar_code (bars ! i)) ! k = (i, bars ! i)" for i k
  proof -
    have "distinct (map fst S)" by (simp add: S_def distinct_sort_daily)
    from next_prices_lookup [OF this that(1)] that show ?thesis
      by (simp add: nx_def shift_next_nth)
  qed
  have C: "\<forall>i<?n. \<forall>q<?n. previous_row bars i q \<longrightarrow>
             snd (out ! i) =
               (compute_forward_return parse_num (bar_open (daily_df ! q)) (bar_close (daily_df ! i)),
                compute_forward_return parse_num (bar_close (daily_df ! q)) (bar_close (daily_df ! i)))"
  proof (intro allI impI)
    fix i q assume i: "i < ?n" and q: "q < ?n" and pr: "previous_row bars i q"
    from pos [OF i] obtain k where
      k: "k < length (stock_rows S (bar_code (bars ! i)))"
         "stock_rows S (bar_code (bars ! i)) ! k = (i, bars ! i)" by blast
    from next_row_position [of i bars q k] i q k pr
    have s: "Suc k < length (stock_rows S (bar_code (bars ! i)))"
            "stock_rows S (bar_code (bars ! i)) ! Suc k = (q, bars ! q)"
      by (simp_all add: S_def lb)
    from nxv [OF k] s have "nx i = (bar_open (daily_df ! q), bar_close (daily_df ! q))"
      by (simp add: b q)
    then show "snd (out ! i) =
               (compute_forward_return parse_num (bar_open (daily_df ! q)) (bar_close (daily_df ! i)),
                compute_forward_return parse_num (bar_close (daily_df ! q)) (bar_close (daily_df ! i)))"
      using i by (simp add: o F_def b)
  qed
  have D: "\<forall>i<?n. (\<forall>q<?n. \<not> previous_row bars i q) \<longrightarrow> snd (out ! i) = (None, None)"
  proof (intro allI impI)
    fix i assume i: "i < ?n" and np: "\<forall>q<?n. \<not> previous_row bars i q"
    from pos [OF i] obtain k where
      k: "k < length (stock_rows S (bar_code (bars ! i)))"
         "stock_rows S (bar_code (bars ! i)) ! k = (i, bars ! i)" by blast
    have "\<not> Suc k < length (stock_rows S (bar_code (bars ! i)))"
    proof
      assume s: "Suc k < length (stock_rows S (bar_code (bars ! i)))"
      from stock_rows_member [OF nth_mem [OF s [unfolded S_def]]] obtain q where
        q: "q < length bars" "stock_rows S (bar_code (bars ! i)) ! Suc k = (q, bars ! q)"
        by (auto simp: S_def)
      from next_row_position [of i bars q k] i q k s have "previous_row bars i q"
        by (simp add: S_def lb)
      with np q(1) show False by (simp add: lb)
    qed
    with nxv [OF k] have "nx i = (PyNaN, PyNaN)" by simp
    then show "snd (out ! i) = (None, None)"
      using i by (simp add: o F_def)
  qed
  have E: "\<forall>i<?n. to_numeric parse_num (bar_close (daily_df ! i)) = None
             \<or> to_numeric parse_num (bar_close (daily_df ! i)) = Some 0
               \<longrightarrow> snd (out ! i) = (None, None)"
    by (auto simp: o F_def b compute_forward_return_def split: option.splits)
  have G: "\<forall>next_price current_close n c.
             to_numeric parse_num next_price = Some n
             \<and> to_numeric parse_num current_close = Some c \<and> c \<noteq> 0
               \<longrightarrow> compute_forward_return parse_num next_price current_close
                     = Some (fsub (fdiv n c) 1)"
    by (simp add: compute_forward_return_def)
  from A B C D E G show ?thesis
    unfolding bars_def by blast
qed


theorem next_day_returns_witness:
  "(case add_next_day_returns keep_text no_numeric_text returns_table of
      Inl e \<Rightarrow> False
    | Inr out \<Rightarrow>
        fst (out ! 1) = (''AAA'', ''20240102'', PyFloat 10, PyFloat 10)
      \<and> snd (out ! 1) = (Some (fsub (fdiv 11 10) 1), Some (fsub (fdiv 12 10) 1))
      \<and> snd (out ! 0) = (None, None))"
proof -
  let ?keys = "[''20240103'', ''20240102'', ''20240102'', ''20240103'']"
  have "(case add_next_day_returns keep_text no_numeric_text returns_table of
           Inl e \<Rightarrow> False | Inr out \<Rightarrow> True)"
    by code_simp
  then obtain out where
    run: "add_next_day_returns keep_text no_numeric_text returns_table = Inr out"
    by (auto split: sum.splits)
  have keys: "parse_trade_date keep_text (map bar_date returns_table) = Inr ?keys"
    by code_simp
  note t = next_day_returns [OF run keys]
  have len: "length returns_table = 4" by (simp add: returns_table_def)
  have pr: "previous_row (keyed_rows returns_table ?keys) 1 0"
    by code_simp
  have last: "\<forall>q<length returns_table. \<not> previous_row (keyed_rows returns_table ?keys) 0 q"
    by code_simp
  from t len have r: "fst (out ! 1) = returns_table ! 1" by simp
  from t have "\<And>i q. i < length returns_table \<Longrightarrow> q < length returns_table \<Longrightarrow>
        previous_row (keyed_rows returns_table ?keys) i q \<Longrightarrow>
        snd (out ! i) =
          (compute_forward_return no_numeric_text (bar_open (returns_table ! q)) (bar_close (returns_table ! i)),
           compute_forward_return no_numeric_text (bar_close (returns_table ! q)) (bar_close (returns_table ! i)))"
    by blast
  from this [OF _ _ pr] len
  have "snd (out ! 1) =
          (compute_forward_return no_numeric_text (bar_open (returns_table ! 0)) (bar_close (returns_table ! 1)),
           compute_forward_return no_numeric_text (bar_close (returns_table ! 0)) (bar_close (returns_table ! 1)))"
    by simp
  then have a: "snd (out ! 1) = (Some (fsub (fdiv 11 10) 1), Some (fsub (fdiv 12 10) 1))"
    by (simp add: returns_table_def bar_open_def bar_close_def compute_forward_return_def)
  from t have "\<And>i. i < length returns_table \<Longrightarrow>
        \<forall>q<length returns_table. \<not> previous_row (keyed_rows returns_table ?keys) i q \<Longrightarrow>
        snd (out ! i) = (None, None)"
    by blast
  from this [OF _ last] len have b: "snd (out ! 0) = (None, None)" by simp
  from run r a b show ?thesis by (simp add: returns_table_def)
qed





section \<open>The backtest simulator\<close>

lemma generate_signals_strategy:
  "snd (generate_signals daily_df strategy fill_model) = strategy"
  by (simp add: generate_signals_def Let_def split: sum.split prod.split)

lemma generate_signals_result:
  "fst (generate_signals daily_df strategy fill_model) =
     (let during = (if attr_fill_model strategy = None then None else Some (ModelEnum fill_model)) in
      case generate_entries strategy during daily_df of
        Inl e \<Rightarrow> Inl e
      | Inr entry_signal \<Rightarrow>
          (case generate_exits strategy during daily_df of
             Inl e \<Rightarrow> Inl e
           | Inr exit_signal \<Rightarrow>
               if length entry_signal = length daily_df \<and> length exit_signal = length daily_df
               then Inr (normalize_bool_series entry_signal, exit_signal)
               else Inl ValueError))"
proof (cases "attr_fill_model strategy")
  case None
  then show ?thesis
    by (simp add: generate_signals_def Let_def cong: sum.case_cong split: sum.split prod.split)
next
  case (Some a)
  then show ?thesis
    by (simp add: generate_signals_def Let_def cong: sum.case_cong split: sum.split prod.split)
qed

lemma generate_signals_pair:
  "generate_signals daily_df strategy fill_model =
     (fst (generate_signals daily_df strategy fill_model), strategy)"
  by (metis generate_signals_strategy prod.collapse)

lemma run_backtest_strategy:
  "snd (run_backtest parse_num to_yyyymmdd daily_df strategy fill_model fee_bps slippage_bps) = strategy"
  unfolding run_backtest_def Let_def
  by (subst generate_signals_pair) (simp split: sum.split prod.split)

lemma base_prices_attr:
  "base_prices parse_num to_yyyymmdd (strategy\<lparr>attr_fill_model := a\<rparr>) = base_prices parse_num to_yyyymmdd strategy"
  by (intro ext) (simp add: base_prices_def Let_def cong: option.case_cong sum.case_cong)

lemma trade_for_row_attr:
  "trade_for_row parse_num to_yyyymmdd (strategy\<lparr>attr_fill_model := a\<rparr>) = trade_for_row parse_num to_yyyymmdd strategy"
  by (intro ext) (simp add: trade_for_row_def base_prices_attr Let_def cong: loop_step.case_cong sum.case_cong prod.case_cong)

lemma generate_signals_original:
  assumes "attr_fill_model strategy \<noteq> None"
  shows "fst (generate_signals daily_df (strategy\<lparr>attr_fill_model := Some original\<rparr>) fill_model) =
         fst (generate_signals daily_df strategy fill_model)"
proof -
  from assms obtain a where "attr_fill_model strategy = Some a" by blast
  then show ?thesis
    by (simp add: generate_signals_result Let_def cong: sum.case_cong)
qed

lemma run_backtest_original:
  assumes "attr_fill_model strategy \<noteq> None"
  shows "fst (run_backtest parse_num to_yyyymmdd daily_df (strategy\<lparr>attr_fill_model := Some original\<rparr>) fill_model fee_bps slippage_bps) =
         fst (run_backtest parse_num to_yyyymmdd daily_df strategy fill_model fee_bps slippage_bps)"
  unfolding run_backtest_def Let_def
  apply (subst generate_signals_pair)
  apply (subst (2) generate_signals_pair)
  apply (simp add: generate_signals_original [OF assms] trade_for_row_attr split: sum.split prod.split)
  done

text \<open>
  Claim C9. Running the simulator leaves the strategy object as it was: the object after
  \<^verbatim>\<open>run_backtest\<close>, and after \<^verbatim>\<open>_generate_signals\<close>, is the object before, whether the call
  returns or raises. During signal generation the methods see the fill model of the call in
  place of the \<^verbatim>\<open>fill_model\<close> attribute when the object has one, and no attribute
  otherwise. So a second call on the same object, with any table, fill model and costs, is the
  call on the object as it was before the first call, and the value that the attribute held
  has no effect on the result.
\<close>

theorem run_backtest_restores_strategy:
  "snd (run_backtest parse_num to_yyyymmdd daily_df strategy fill_model fee_bps slippage_bps) = strategy
   \<and> snd (generate_signals daily_df strategy normalized_fill_model) = strategy
   \<and> fst (generate_signals daily_df strategy normalized_fill_model) =
       (let during = (if attr_fill_model strategy = None then None
                      else Some (ModelEnum normalized_fill_model)) in
        case generate_entries strategy during daily_df of
          Inl e \<Rightarrow> Inl e
        | Inr entry_signal \<Rightarrow>
            (case generate_exits strategy during daily_df of
               Inl e \<Rightarrow> Inl e
             | Inr exit_signal \<Rightarrow>
                 if length entry_signal = length daily_df \<and> length exit_signal = length daily_df
                 then Inr (normalize_bool_series entry_signal, exit_signal)
                 else Inl ValueError))
   \<and> run_backtest parse_num to_yyyymmdd daily_df2
         (snd (run_backtest parse_num to_yyyymmdd daily_df strategy fill_model fee_bps slippage_bps))
         fill_model2 fee_bps2 slippage_bps2 =
       run_backtest parse_num to_yyyymmdd daily_df2 strategy fill_model2 fee_bps2 slippage_bps2
   \<and> (attr_fill_model strategy \<noteq> None \<longrightarrow>
        fst (run_backtest parse_num to_yyyymmdd daily_df
               (strategy\<lparr>attr_fill_model := Some original\<rparr>) fill_model fee_bps slippage_bps) =
        fst (run_backtest parse_num to_yyyymmdd daily_df strategy fill_model fee_bps slippage_bps))"
  using run_backtest_strategy [of parse_num to_yyyymmdd daily_df strategy fill_model fee_bps slippage_bps]
    generate_signals_strategy [of daily_df strategy normalized_fill_model]
    generate_signals_result [of daily_df strategy normalized_fill_model]
    run_backtest_original [of strategy parse_num to_yyyymmdd daily_df original fill_model fee_bps slippage_bps]
  by simp

text \<open>
  The fill-model test of the repository: one strategy object, built with the conservative
  model, is run under the ideal model and then under the conservative one. The first run
  makes one trade, the second none, and the object is the same after each.
\<close>

theorem run_backtest_restores_strategy_witness:
  "attr_fill_model (BuyFirstLimitUpSellNextCloseStrategy no_numeric_text keep_text CONSERVATIVE) \<noteq> None
   \<and> snd (run_backtest no_numeric_text keep_text sealed_day_table
            (BuyFirstLimitUpSellNextCloseStrategy no_numeric_text keep_text CONSERVATIVE)
            (ModelEnum IDEAL) 0 0) =
       BuyFirstLimitUpSellNextCloseStrategy no_numeric_text keep_text CONSERVATIVE
   \<and> run_backtest no_numeric_text keep_text sealed_day_table
         (snd (run_backtest no_numeric_text keep_text sealed_day_table
                 (BuyFirstLimitUpSellNextCloseStrategy no_numeric_text keep_text CONSERVATIVE)
                 (ModelEnum IDEAL) 0 0))
         (ModelEnum CONSERVATIVE) 0 0 =
       run_backtest no_numeric_text keep_text sealed_day_table
         (BuyFirstLimitUpSellNextCloseStrategy no_numeric_text keep_text CONSERVATIVE)
         (ModelEnum CONSERVATIVE) 0 0
   \<and> fst (run_backtest no_numeric_text keep_text sealed_day_table
            ((BuyFirstLimitUpSellNextCloseStrategy no_numeric_text keep_text CONSERVATIVE)
               \<lparr>attr_fill_model := Some (ModelEnum IDEAL)\<rparr>)
            (ModelEnum CONSERVATIVE) 0 0) =
       fst (run_backtest no_numeric_text keep_text sealed_day_table
            (BuyFirstLimitUpSellNextCloseStrategy no_numeric_text keep_text CONSERVATIVE)
            (ModelEnum CONSERVATIVE) 0 0)
   \<and> (case fst (run_backtest no_numeric_text keep_text sealed_day_table
                  (BuyFirstLimitUpSellNextCloseStrategy no_numeric_text keep_text CONSERVATIVE)
                  (ModelEnum IDEAL) 0 0) of
         Inl e \<Rightarrow> False | Inr result \<Rightarrow> length (trades result) = 1)
   \<and> (case fst (run_backtest no_numeric_text keep_text sealed_day_table
                  (BuyFirstLimitUpSellNextCloseStrategy no_numeric_text keep_text CONSERVATIVE)
                  (ModelEnum CONSERVATIVE) 0 0) of
         Inl e \<Rightarrow> False | Inr result \<Rightarrow> length (trades result) = 0)"
proof -
  let ?s = "BuyFirstLimitUpSellNextCloseStrategy no_numeric_text keep_text CONSERVATIVE"
  have a: "attr_fill_model ?s \<noteq> None"
    by (simp add: BuyFirstLimitUpSellNextCloseStrategy_def)
  have i: "case fst (run_backtest no_numeric_text keep_text sealed_day_table ?s (ModelEnum IDEAL) 0 0) of
             Inl e \<Rightarrow> False | Inr result \<Rightarrow> length (trades result) = 1"
    by code_simp
  have c: "case fst (run_backtest no_numeric_text keep_text sealed_day_table ?s (ModelEnum CONSERVATIVE) 0 0) of
             Inl e \<Rightarrow> False | Inr result \<Rightarrow> length (trades result) = 0"
    by code_simp
  show ?thesis
    using run_backtest_restores_strategy
      [of no_numeric_text keep_text sealed_day_table ?s "ModelEnum IDEAL" 0 0 CONSERVATIVE
          sealed_day_table "ModelEnum CONSERVATIVE" 0 0 "ModelEnum IDEAL"]
      run_backtest_restores_strategy
      [of no_numeric_text keep_text sealed_day_table ?s "ModelEnum CONSERVATIVE" 0 0 CONSERVATIVE
          sealed_day_table "ModelEnum CONSERVATIVE" 0 0 "ModelEnum IDEAL"]
      a i c
    by blast
qed

lemma simulate_append:
  "simulate body (xs @ ys) =
     (case simulate body xs of
        Inl e \<Rightarrow> Inl e
      | Inr ts \<Rightarrow> (case simulate body ys of Inl e \<Rightarrow> Inl e | Inr us \<Rightarrow> Inr (ts @ us)))"
  by (induction xs) (simp_all split: loop_step.split sum.split)

lemma simulate_skip:
  assumes "body signal = Continue"
  shows "simulate body (earlier @ signal # later) = simulate body (earlier @ later)"
proof -
  have h: "simulate body (signal # later) = simulate body later" using assms by simp
  show ?thesis by (simp only: simulate_append h)
qed

lemma trade_for_row_unresolved:
  assumes "normalize_trade_date to_yyyymmdd exit_cell = None
           \<or> (\<exists>exit_date. normalize_trade_date to_yyyymmdd exit_cell = Some exit_date
                \<and> price_lookup (strip (bar_code entry_row), exit_date) = None)"
  shows "trade_for_row parse_num to_yyyymmdd strategy normalized_fill_model total_cost_bps
           price_lookup (entry_row, exit_cell) = Continue"
  using assms by (auto simp: trade_for_row_def base_prices_def Let_def)

text \<open>
  Claim C8. An entry signal whose exit date does not resolve makes no trade and raises no
  error. The exit does not resolve when \<^verbatim>\<open>_normalize_trade_date\<close> gives \<^verbatim>\<open>None\<close> for the cell
  of the exit series (the instrument has no next trade date, so the cell is a missing value,
  or the cell is empty or does not parse), or when the price lookup has no row for the
  stripped \<^verbatim>\<open>ts_code\<close> and the normalised exit date. The pass of the loop for such a signal
  ends with \<^verbatim>\<open>continue\<close>, and the loop over the signals gives what it gives without that
  signal: the same records in the same order, or the same exception.
\<close>

theorem unresolved_exit_is_skipped:
  assumes "normalize_trade_date to_yyyymmdd exit_cell = None
           \<or> (\<exists>exit_date. normalize_trade_date to_yyyymmdd exit_cell = Some exit_date
                \<and> price_lookup (strip (bar_code entry_row), exit_date) = None)"
  shows "trade_for_row parse_num to_yyyymmdd strategy normalized_fill_model total_cost_bps
           price_lookup (entry_row, exit_cell) = Continue
         \<and> simulate (trade_for_row parse_num to_yyyymmdd strategy normalized_fill_model
                       total_cost_bps price_lookup)
             (earlier @ (entry_row, exit_cell) # later) =
           simulate (trade_for_row parse_num to_yyyymmdd strategy normalized_fill_model
                       total_cost_bps price_lookup)
             (earlier @ later)"
  using trade_for_row_unresolved [OF assms] simulate_skip by metis

text \<open>
  The limit-up day of the end-to-end table alone: the instrument has no next trade date, the
  cell of the exit series is a missing value, and the run returns no trade and an equity of
  1.0.
\<close>

theorem unresolved_exit_is_skipped_witness:
  "normalize_trade_date keep_text None = None
   \<and> trade_for_row no_numeric_text keep_text
        (BuyFirstLimitUpSellNextCloseStrategy no_numeric_text keep_text CONSERVATIVE)
        CONSERVATIVE 0 Map.empty (hd backtest_table, None) = Continue
   \<and> simulate (trade_for_row no_numeric_text keep_text
                 (BuyFirstLimitUpSellNextCloseStrategy no_numeric_text keep_text CONSERVATIVE)
                 CONSERVATIVE 0 Map.empty)
        ([] @ (hd backtest_table, None) # []) =
      simulate (trade_for_row no_numeric_text keep_text
                 (BuyFirstLimitUpSellNextCloseStrategy no_numeric_text keep_text CONSERVATIVE)
                 CONSERVATIVE 0 Map.empty)
        ([] @ [])
   \<and> (case fst (run_backtest no_numeric_text keep_text [hd backtest_table]
                  (BuyFirstLimitUpSellNextCloseStrategy no_numeric_text keep_text CONSERVATIVE)
                  (ModelEnum CONSERVATIVE) 0 0) of
         Inl e \<Rightarrow> False
       | Inr result \<Rightarrow> trades result = [] \<and> map snd (equity_curve result) = [Some 1])"
proof -
  have n: "normalize_trade_date keep_text None = None"
    by (simp add: normalize_trade_date_def)
  have r: "case fst (run_backtest no_numeric_text keep_text [hd backtest_table]
                  (BuyFirstLimitUpSellNextCloseStrategy no_numeric_text keep_text CONSERVATIVE)
                  (ModelEnum CONSERVATIVE) 0 0) of
         Inl e \<Rightarrow> False
       | Inr result \<Rightarrow> trades result = [] \<and> map snd (equity_curve result) = [Some 1]"
    by code_simp
  show ?thesis
    using unresolved_exit_is_skipped
      [of keep_text None Map.empty "hd backtest_table" no_numeric_text
          "BuyFirstLimitUpSellNextCloseStrategy no_numeric_text keep_text CONSERVATIVE"
          CONSERVATIVE 0 "[]" "[]"] n r
    by blast
qed


end
